theory Spec2Isabelle
  imports Complex_Main
begin

section \<open>Device arrays\<close>

text \<open>
  The thin stack keeps all of its data in device arrays of single-precision floats
  (\<^verbatim>\<open>float *\<close>). Two kinds of array occur in \<^verbatim>\<open>thin-stack.cc\<close>:
  \<^item> matrices in column-major order with leading dimension \<^verbatim>\<open>model_dim\<close>
    (\<^verbatim>\<open>stack\<close>, \<^verbatim>\<open>buffer\<close>, \<^verbatim>\<open>X\<close>, the gathered operands and the weights): such an
    array is the list of its columns, one column of \<^verbatim>\<open>model_dim\<close> floats per example and
    timestep, so column \<open>k\<close> stands for the floats at offsets
    \<open>k * model_dim ..< (k + 1) * model_dim\<close>;
  \<^item> vectors of integral values used as indices and masks (\<^verbatim>\<open>queue\<close>, \<^verbatim>\<open>cursors\<close>,
    \<^verbatim>\<open>buffer_cur_t\<close>, \<^verbatim>\<open>stack_2_ptrs\<close>, \<^verbatim>\<open>transitions\<close>, \<^verbatim>\<open>batch_range\<close>,
    \<^verbatim>\<open>batch_ones\<close>): they only ever hold small integers, which a float represents
    exactly, and are lists of \<open>int\<close>.
  The floats of the matrices are abstracted to \<open>real\<close>: rounding is not modelled.
\<close>

type_synonym fvec = "real list"
type_synonym fmat = "real list list"
type_synonym ivec = "int list"

text \<open>
  Modelled from the spec: \<^verbatim>\<open>ModelSpec\<close> is declared in \<^verbatim>\<open>util.h\<close>, which is not among the
  sources. The core reads the three dimensions below; the remaining members
  (embedding dimension, tracking dimension, number of classes) are never read by it.
\<close>

record ModelSpec =
  batch_size :: nat
  model_dim :: nat
  seq_length :: nat

text \<open>
  \<^verbatim>\<open>ThinStackParameters\<close>: of the eleven weight pointers only the two composition
  matrices are read; \<^verbatim>\<open>compose_b\<close> is kept because the specification speaks of it.
\<close>

record ThinStackParameters =
  compose_W_l :: fmat
  compose_W_r :: fmat
  compose_b :: fvec

text \<open>
  The members of \<^verbatim>\<open>class ThinStack\<close> that \<^verbatim>\<open>forward\<close> touches. The containers
  \<^verbatim>\<open>buffer_top_idxs_t\<close>, \<^verbatim>\<open>stack_1_ptrs\<close> and \<^verbatim>\<open>push_output\<close> are allocated and never
  used, and are left out. The sizes \<^verbatim>\<open>stack_size\<close>, \<^verbatim>\<open>stack_total_size\<close>, ... are
  functions of \<open>spec\<close> (below).
\<close>

record ThinStack =
  spec :: ModelSpec
  params :: ThinStackParameters
  X :: fmat
  transitions :: ivec
  stack :: fmat
  queue :: ivec
  cursors :: ivec
  buffer :: fmat
  buffer_top_t :: fmat
  stack_1_t :: fmat
  stack_2_ptrs :: ivec
  stack_2_t :: fmat
  merge_output :: fmat
  buffer_cur_t :: ivec
  batch_ones :: ivec
  batch_range :: ivec

section \<open>cuBLAS\<close>

text \<open>
  \<^verbatim>\<open>cublasSaxpy(handle, n, &alpha, x, incx, y, incy)\<close>: \<open>y[i * incy] += alpha * x[i * incx]\<close>
  for \<open>i < n\<close>. The result is the new content of \<open>y\<close>.
\<close>

definition cublasSaxpy :: "nat \<Rightarrow> int \<Rightarrow> ivec \<Rightarrow> nat \<Rightarrow> ivec \<Rightarrow> nat \<Rightarrow> ivec" where
  "cublasSaxpy n alpha x incx y incy =
     map (\<lambda>j. if incy dvd j \<and> j div incy < n
              then alpha * x ! ((j div incy) * incx) + y ! j
              else y ! j) [0..<length y]"

text \<open>
  \<^verbatim>\<open>cublasSgemm(handle, CUBLAS_OP_N, CUBLAS_OP_N, m, n, k, &alpha, A, lda, B, ldb, &beta, C, ldc)\<close>:
  \<open>C := alpha * A * B + beta * C\<close> on column-major matrices, \<open>A\<close> of \<open>m\<close> rows and \<open>k\<close>
  columns, \<open>B\<close> of \<open>k\<close> rows and \<open>n\<close> columns. Every call passes the column length as
  leading dimension, which the list of columns carries. With \<open>beta = 0\<close> cuBLAS does not
  read \<open>C\<close>.
\<close>

definition cublasSgemm :: "nat \<Rightarrow> nat \<Rightarrow> nat \<Rightarrow> real \<Rightarrow> fmat \<Rightarrow> fmat \<Rightarrow> real \<Rightarrow> fmat \<Rightarrow> fmat" where
  "cublasSgemm m n k alpha A Bm beta C =
     map (\<lambda>c. map (\<lambda>r. alpha * sum_list (map (\<lambda>p. A ! p ! r * Bm ! c ! p) [0..<k])
                       + (if beta = 0 then 0 else beta * C ! c ! r)) [0..<m]) [0..<n]"

section \<open>Kernels\<close>

text \<open>
  Modelled from the spec: the kernels of namespace \<^verbatim>\<open>kernels\<close> (\<^verbatim>\<open>kernels.cuh\<close>) are not
  among the sources. Their meaning is taken from section 4.2 of the specification and
  from the comment that \<^verbatim>\<open>ThinStack::step\<close> puts above each call. The arguments are
  kept in the order of the calls.

  A kernel checks no bound. A read at an offset outside the extent of the source array
  returns whatever the device memory holds there: the model takes that content as a
  parameter \<open>outside\<close>, and the theorems about \<^verbatim>\<open>step\<close> and \<^verbatim>\<open>forward\<close> are stated for
  all such contents.
\<close>

definition fetch :: "(int \<Rightarrow> 'a) \<Rightarrow> 'a list \<Rightarrow> int \<Rightarrow> 'a" where
  "fetch outside src k =
     (if 0 \<le> k \<and> k < int (length src) then src ! nat k else outside k)"

text \<open>
  Modelled from the spec: the index that \<^verbatim>\<open>subtensor1\<close> computes for example \<open>i\<close>,
  \<open>(idxs[i] + idx_scal_shift) * idx_scal_mul + idx_vec_shift_coeff * idx_vec_shift[i]\<close>,
  the last summand absent when \<^verbatim>\<open>idx_vec_shift\<close> is \<^verbatim>\<open>NULL\<close>. Every call has
  \<open>idx_scal_shift = 0\<close> or \<open>idx_scal_mul = 1\<close>, so the order of shift and scaling does
  not matter to them.
\<close>

definition subtensor1_idx :: "ivec \<Rightarrow> int \<Rightarrow> int \<Rightarrow> int \<Rightarrow> ivec option \<Rightarrow> nat \<Rightarrow> int" where
  "subtensor1_idx idxs idx_scal_shift idx_scal_mul idx_vec_shift_coeff idx_vec_shift i =
     (idxs ! i + idx_scal_shift) * idx_scal_mul
       + idx_vec_shift_coeff * (case idx_vec_shift of None \<Rightarrow> 0 | Some v \<Rightarrow> v ! i)"

text \<open>
  Modelled from the spec: \<^verbatim>\<open>subtensor1(dst, src, idxs, src_N, N, D, idx_scal_shift,
  idx_scal_mul, idx_vec_shift_coeff, idx_vec_shift)\<close>, the gather: for every example
  \<open>i < N\<close> it copies the row of \<open>src\<close> found at the computed index into \<open>dst[i]\<close>. A row is
  one element of the list: a column of \<^verbatim>\<open>model_dim\<close> floats for \<^verbatim>\<open>stack\<close> and
  \<^verbatim>\<open>buffer\<close>, one float for \<^verbatim>\<open>queue\<close> ("one row of width D (or 1)"). The shape
  arguments \<open>src_N\<close> and \<open>D\<close> are carried by the list and are not interpreted: the
  calls pass \<^verbatim>\<open>model_dim\<close> as \<open>D\<close> for the matrices and \<^verbatim>\<open>seq_length\<close> for the
  queue, whose gathered elements are the single floats that \<^verbatim>\<open>stack_2_ptrs\<close>, an array
  of \<^verbatim>\<open>batch_size\<close> floats, holds. The result is the new content of \<open>dst\<close>.
\<close>

definition subtensor1 ::
  "(int \<Rightarrow> 'a) \<Rightarrow> 'a list \<Rightarrow> ivec \<Rightarrow> nat \<Rightarrow> nat \<Rightarrow> nat \<Rightarrow> int \<Rightarrow> int \<Rightarrow> int \<Rightarrow> ivec option \<Rightarrow> 'a list" where
  "subtensor1 outside src idxs src_N N D idx_scal_shift idx_scal_mul idx_vec_shift_coeff idx_vec_shift =
     map (\<lambda>i. fetch outside src
                (subtensor1_idx idxs idx_scal_shift idx_scal_mul idx_vec_shift_coeff idx_vec_shift i))
         [0..<N]"

text \<open>
  Modelled from the spec: \<^verbatim>\<open>addi_vv(handle, v1, v2, v1_coeff, v2_coeff, N)\<close>, the scaled
  vector add \<open>v1 := v1 * v1_coeff + v2 * v2_coeff\<close> on the first \<open>N\<close> entries.
\<close>

definition addi_vv :: "ivec \<Rightarrow> ivec \<Rightarrow> int \<Rightarrow> int \<Rightarrow> nat \<Rightarrow> ivec" where
  "addi_vv v1 v2 v1_coeff v2_coeff N =
     map (\<lambda>i. if i < N then v1 ! i * v1_coeff + v2 ! i * v2_coeff else v1 ! i) [0..<length v1]"

text \<open>
  Modelled from the spec: \<^verbatim>\<open>set_subtensor1i_s(dst, src, idxs, N, idx_scal_shift,
  idx_vec_shift_coeff, idx_vec_shift)\<close>, the scalar scatter: for every example \<open>i < N\<close>
  it stores the scalar \<open>src\<close> at offset
  \<open>idxs[i] + idx_scal_shift + idx_vec_shift_coeff * idx_vec_shift[i]\<close> of \<open>dst\<close>. All
  examples store the same scalar, so the order of the stores does not matter: a cell
  holds \<open>src\<close> afterwards iff some example addresses it. A store outside the extent of
  \<open>dst\<close> leaves \<open>dst\<close> as it is. The result is the new content of \<open>dst\<close>.
\<close>

definition set_subtensor1i_s :: "ivec \<Rightarrow> int \<Rightarrow> ivec \<Rightarrow> nat \<Rightarrow> int \<Rightarrow> int \<Rightarrow> ivec \<Rightarrow> ivec" where
  "set_subtensor1i_s dst src idxs N idx_scal_shift idx_vec_shift_coeff idx_vec_shift =
     map (\<lambda>k. if list_ex (\<lambda>i. idxs ! i + idx_scal_shift + idx_vec_shift_coeff * idx_vec_shift ! i = int k) [0..<N]
              then src else dst ! k) [0..<length dst]"

text \<open>
  Modelled from the spec: \<^verbatim>\<open>switch_m(dst, mask, ift, iff, N, D)\<close>, the select by mask:
  row \<open>i < N\<close> of \<open>dst\<close> becomes row \<open>i\<close> of \<open>value_if_1\<close> where \<open>mask[i]\<close> is 1 and row \<open>i\<close>
  of \<open>value_if_0\<close> otherwise. The caller passes a pointer into the middle of an array:
  \<open>dst\<close> is that array and \<open>off\<close> the column the pointer addresses. The result is the
  new content of the array.
\<close>

definition switch_m :: "'a list \<Rightarrow> nat \<Rightarrow> ivec \<Rightarrow> 'a list \<Rightarrow> 'a list \<Rightarrow> nat \<Rightarrow> nat \<Rightarrow> 'a list" where
  "switch_m dst off msk value_if_1 value_if_0 N D =
     map (\<lambda>k. if off \<le> k \<and> k < off + N
              then (if msk ! (k - off) = 1 then value_if_1 ! (k - off) else value_if_0 ! (k - off))
              else dst ! k) [0..<length dst]"

section \<open>ThinStack\<close>

text \<open>The sizes computed by the constructor, in columns for the matrices.\<close>

definition stack_size :: "ModelSpec \<Rightarrow> nat" where
  "stack_size sp = seq_length sp"

definition stack_total_cols :: "ModelSpec \<Rightarrow> nat" where
  "stack_total_cols sp = stack_size sp * batch_size sp"

definition buffer_total_cols :: "ModelSpec \<Rightarrow> nat" where
  "buffer_total_cols sp = batch_size sp * seq_length sp"

definition queue_total_size :: "ModelSpec \<Rightarrow> nat" where
  "queue_total_size sp = batch_size sp * seq_length sp"

definition cursors_total_size :: "ModelSpec \<Rightarrow> nat" where
  "cursors_total_size sp = batch_size sp"

text \<open>\<^verbatim>\<open>ThinStack::init_helpers\<close>: \<open>batch_ones[i] = 1\<close>, \<open>batch_range[i] = i\<close>.\<close>

definition init_helpers :: "ThinStack \<Rightarrow> ThinStack" where
  "init_helpers s =
     s\<lparr>batch_ones := replicate (batch_size (spec s)) 1,
       batch_range := map int [0..<batch_size (spec s)]\<rparr>"

text \<open>
  The constructor. \<^verbatim>\<open>cudaMalloc\<close> does not initialise what it allocates: \<open>uf\<close> and \<open>ui\<close>
  give the floats and index values found in the fresh arrays.
\<close>

definition fresh_mat :: "(nat \<Rightarrow> real) \<Rightarrow> nat \<Rightarrow> nat \<Rightarrow> fmat" where
  "fresh_mat uf cols D = map (\<lambda>c. map (\<lambda>r. uf (c * D + r)) [0..<D]) [0..<cols]"

definition ThinStack_new ::
  "ModelSpec \<Rightarrow> ThinStackParameters \<Rightarrow> (nat \<Rightarrow> real) \<Rightarrow> (nat \<Rightarrow> int) \<Rightarrow> ThinStack" where
  "ThinStack_new sp ps uf ui =
     init_helpers
       \<lparr>spec = sp, params = ps,
        X = fresh_mat uf (batch_size sp * seq_length sp) (model_dim sp),
        transitions = map ui [0..<batch_size sp * seq_length sp],
        stack = fresh_mat uf (stack_total_cols sp) (model_dim sp),
        queue = map ui [0..<queue_total_size sp],
        cursors = map ui [0..<cursors_total_size sp],
        buffer = fresh_mat uf (buffer_total_cols sp) (model_dim sp),
        buffer_top_t = fresh_mat uf (batch_size sp) (model_dim sp),
        stack_1_t = fresh_mat uf (batch_size sp) (model_dim sp),
        stack_2_ptrs = map ui [0..<batch_size sp],
        stack_2_t = fresh_mat uf (batch_size sp) (model_dim sp),
        merge_output = fresh_mat uf (batch_size sp) (model_dim sp),
        buffer_cur_t = map ui [0..<batch_size sp],
        batch_ones = [], batch_range = []\<rparr>"

text \<open>
  \<^verbatim>\<open>ThinStack::zero\<close>: four \<^verbatim>\<open>cudaMemset\<close> calls, each over the whole allocation of its
  array.
\<close>

definition zero :: "ThinStack \<Rightarrow> ThinStack" where
  "zero s =
     s\<lparr>stack := replicate (stack_total_cols (spec s)) (replicate (model_dim (spec s)) 0),
       queue := replicate (queue_total_size (spec s)) 0,
       cursors := replicate (cursors_total_size (spec s)) 0,
       buffer_cur_t := replicate (batch_size (spec s)) 0\<rparr>"

text \<open>
  \<^verbatim>\<open>ThinStack::recurrence\<close>: \<open>merge_output = W_l * stack_2_t\<close>, then
  \<open>merge_output += W_r * stack_1_t\<close>. Bias and rectification are two \<^verbatim>\<open>TODO\<close> comments.
\<close>

definition recurrence :: "fmat \<Rightarrow> fmat \<Rightarrow> fmat \<Rightarrow> ThinStack \<Rightarrow> ThinStack" where
  "recurrence stack_1 stack_2 buffer_top s =
     (let alpha = 1; beta = 0;
          s1 = s\<lparr>merge_output :=
                  cublasSgemm (model_dim (spec s)) (batch_size (spec s)) (model_dim (spec s))
                    alpha (compose_W_l (params s)) stack_2 beta (merge_output s)\<rparr>;
          beta2 = 1
      in s1\<lparr>merge_output :=
              cublasSgemm (model_dim (spec s1)) (batch_size (spec s1)) (model_dim (spec s1))
                alpha (compose_W_r (params s1)) stack_1 beta2 (merge_output s1)\<rparr>)"

text \<open>
  \<^verbatim>\<open>ThinStack::mask_and_update_stack\<close>: the write destination starts at float offset
  \<open>t * batch_size * model_dim\<close>, which is column \<open>t * batch_size\<close>.
\<close>

definition mask_and_update_stack :: "fmat \<Rightarrow> fmat \<Rightarrow> ivec \<Rightarrow> nat \<Rightarrow> ThinStack \<Rightarrow> ThinStack" where
  "mask_and_update_stack push_value merge_value transitions_t t s =
     (let stack_offset = t * batch_size (spec s)
      in s\<lparr>stack := switch_m (stack s) stack_offset transitions_t merge_value push_value
                       (batch_size (spec s)) (model_dim (spec s))\<rparr>)"

text \<open>\<^verbatim>\<open>ThinStack::mask_and_update_cursors\<close>: \<open>cursors += 1\<close>, then \<open>cursors -= 2 * transitions\<close>.\<close>

definition mask_and_update_cursors :: "ivec \<Rightarrow> nat \<Rightarrow> ThinStack \<Rightarrow> ThinStack" where
  "mask_and_update_cursors transitions_t t s =
     (let alpha1 = 1;
          s1 = s\<lparr>cursors := cublasSaxpy (batch_size (spec s)) alpha1 (batch_ones s) 1 (cursors s) 1\<rparr>;
          alpha2 = - 2
      in s1\<lparr>cursors := cublasSaxpy (batch_size (spec s1)) alpha2 transitions_t 1 (cursors s1) 1\<rparr>)"

text \<open>\<^verbatim>\<open>ThinStack::update_buffer_cur\<close>: \<open>buffer_cur += 1\<close>, then \<open>buffer_cur -= transitions\<close>.\<close>

definition update_buffer_cur :: "ivec \<Rightarrow> nat \<Rightarrow> ThinStack \<Rightarrow> ThinStack" where
  "update_buffer_cur transitions_t t s =
     (let alpha1 = 1;
          s1 = s\<lparr>buffer_cur_t :=
                  cublasSaxpy (batch_size (spec s)) alpha1 (batch_ones s) 1 (buffer_cur_t s) 1\<rparr>;
          alpha2 = - 1
      in s1\<lparr>buffer_cur_t :=
              cublasSaxpy (batch_size (spec s1)) alpha2 transitions_t 1 (buffer_cur_t s1) 1\<rparr>)"

text \<open>
  \<^verbatim>\<open>ThinStack::step\<close>. \<open>transitions_t\<close> is the pointer \<^verbatim>\<open>&transitions[t * batch_size]\<close>.
  \<open>outf\<close> and \<open>outi\<close> are the contents of the device memory outside the matrices and
  outside the queue during this step. The printing is left out.
\<close>

definition step :: "(int \<Rightarrow> fvec) \<Rightarrow> (int \<Rightarrow> int) \<Rightarrow> nat \<Rightarrow> ThinStack \<Rightarrow> ThinStack" where
  "step outf outi t s =
     (let B = batch_size (spec s); D = model_dim (spec s); T = seq_length (spec s);
          transitions_t = drop (t * B) (transitions s);
          s1 = s\<lparr>buffer_top_t :=
                  subtensor1 outf (buffer s) (buffer_cur_t s) (B * D) B D 0 (int B) 1
                    (Some (batch_range s))\<rparr>;
          s2 = s1\<lparr>stack_2_ptrs :=
                   subtensor1 outi (queue s1) (cursors s1) B B T (- 1) 1 (int T)
                     (Some (batch_range s1))\<rparr>;
          s3 = s2\<lparr>stack_2_ptrs := addi_vv (stack_2_ptrs s2) (batch_range s2) (int B) 1 B\<rparr>;
          s4 = s3\<lparr>stack_1_t :=
                   subtensor1 outf (stack s3) (batch_range s3) (B * T) B D
                     ((int t - 1) * int B) 1 0 None\<rparr>;
          s5 = s4\<lparr>stack_2_t :=
                   subtensor1 outf (stack s4) (stack_2_ptrs s4) (B * T) B D 0 1 0 None\<rparr>;
          s6 = recurrence (stack_1_t s5) (stack_2_t s5) (buffer_top_t s5) s5;
          s7 = mask_and_update_stack (buffer_top_t s6) (merge_output s6) transitions_t t s6;
          s8 = mask_and_update_cursors transitions_t t s7;
          s9 = s8\<lparr>queue :=
                   set_subtensor1i_s (queue s8) (int t) (cursors s8) B 0 (int T) (batch_range s8)\<rparr>
      in update_buffer_cur transitions_t t s9)"

text \<open>
  \<^verbatim>\<open>ThinStack::forward\<close>: \<open>buffer = X\<close>, \<open>zero()\<close>, then \<open>step(t)\<close> for
  \<open>t = 0, ..., seq_length - 1\<close>. \<open>steps n\<close> is the loop after \<open>n\<close> iterations; \<open>outf t\<close>
  and \<open>outi t\<close> are the memory contents outside the arrays during iteration \<open>t\<close>.
\<close>

primrec steps :: "(nat \<Rightarrow> int \<Rightarrow> fvec) \<Rightarrow> (nat \<Rightarrow> int \<Rightarrow> int) \<Rightarrow> nat \<Rightarrow> ThinStack \<Rightarrow> ThinStack" where
  "steps outf outi 0 s = s"
| "steps outf outi (Suc n) s = step (outf n) (outi n) n (steps outf outi n s)"

definition forward_init :: "ThinStack \<Rightarrow> ThinStack" where
  "forward_init s = zero (s\<lparr>buffer := X s\<rparr>)"

definition forward :: "(nat \<Rightarrow> int \<Rightarrow> fvec) \<Rightarrow> (nat \<Rightarrow> int \<Rightarrow> int) \<Rightarrow> ThinStack \<Rightarrow> ThinStack" where
  "forward outf outi s = steps outf outi (seq_length (spec s)) (forward_init s)"

section \<open>Notions used to state the properties\<close>

text \<open>
  What \<^verbatim>\<open>init_helpers\<close> establishes, and what the caller of \<^verbatim>\<open>forward\<close> provides:
  \<^verbatim>\<open>X\<close> and \<^verbatim>\<open>transitions\<close> filled with one entry per timestep and example,
  timestep-major (\<^verbatim>\<open>&transitions[t * batch_size]\<close> is the row of timestep \<open>t\<close>).
\<close>

definition helpers_ok :: "ThinStack \<Rightarrow> bool" where
  "helpers_ok s \<longleftrightarrow>
     batch_ones s = replicate (batch_size (spec s)) 1 \<and>
     batch_range s = map int [0..<batch_size (spec s)]"

definition ready :: "ThinStack \<Rightarrow> bool" where
  "ready s \<longleftrightarrow>
     helpers_ok s \<and>
     length (X s) = seq_length (spec s) * batch_size (spec s) \<and>
     length (transitions s) = seq_length (spec s) * batch_size (spec s)"

text \<open>The transition of example \<open>i\<close> at timestep \<open>t\<close>: 0 is shift, 1 is reduce.\<close>

definition transition_at :: "ThinStack \<Rightarrow> nat \<Rightarrow> nat \<Rightarrow> int" where
  "transition_at s i t = transitions s ! (t * batch_size (spec s) + i)"

definition shifts_upto :: "ThinStack \<Rightarrow> nat \<Rightarrow> nat \<Rightarrow> nat" where
  "shifts_upto s i n = length (filter (\<lambda>u. transition_at s i u = 0) [0..<n])"

definition reduces_upto :: "ThinStack \<Rightarrow> nat \<Rightarrow> nat \<Rightarrow> nat" where
  "reduces_upto s i n = length (filter (\<lambda>u. transition_at s i u = 1) [0..<n])"

definition binary_upto :: "ThinStack \<Rightarrow> nat \<Rightarrow> nat \<Rightarrow> bool" where
  "binary_upto s i n = list_all (\<lambda>u. transition_at s i u = 0 \<or> transition_at s i u = 1) [0..<n]"

subsection \<open>The reference: one software stack per example\<close>

text \<open>
  The specification compares the queue lookups with "a reference software-stack
  simulation run on the same Transitions". This is that simulation, written from the
  words of the specification, for one example: a shift pushes the next token of the
  example's buffer, a reduce pops the right child and then the left child and pushes
  their composition. The state is the stack, top first, and the number of tokens
  consumed. A reduce on fewer than two entries, a shift past the last token and a
  transition other than 0 and 1 have no successor state: a sequence of transitions is
  well formed when the simulation runs through it.
\<close>

type_synonym ref_state = "fvec list \<times> nat"

fun ref_step :: "(fvec \<Rightarrow> fvec \<Rightarrow> fvec) \<Rightarrow> fvec list \<Rightarrow> int \<Rightarrow> ref_state \<Rightarrow> ref_state option" where
  "ref_step cmp toks a (stk, cur) =
     (if a = 0 then (if cur < length toks then Some (toks ! cur # stk, Suc cur) else None)
      else if a = 1 then
        (case stk of r # l # rest \<Rightarrow> Some (cmp l r # rest, cur) | _ \<Rightarrow> None)
      else None)"

primrec ref_run :: "(fvec \<Rightarrow> fvec \<Rightarrow> fvec) \<Rightarrow> fvec list \<Rightarrow> (nat \<Rightarrow> int) \<Rightarrow> nat \<Rightarrow> ref_state option" where
  "ref_run cmp toks tr 0 = Some ([], 0)"
| "ref_run cmp toks tr (Suc n) =
     (case ref_run cmp toks tr n of None \<Rightarrow> None | Some st \<Rightarrow> ref_step cmp toks (tr n) st)"

text \<open>
  The composition of one left child and one right child with the weights of the thin
  stack, as \<^verbatim>\<open>recurrence\<close> computes it for each column: \<open>W_l * l + W_r * r\<close>.
\<close>

definition compose1 :: "ThinStackParameters \<Rightarrow> nat \<Rightarrow> fvec \<Rightarrow> fvec \<Rightarrow> fvec" where
  "compose1 ps D l r =
     map (\<lambda>row. sum_list (map (\<lambda>p. compose_W_l ps ! p ! row * l ! p) [0..<D])
                 + sum_list (map (\<lambda>p. compose_W_r ps ! p ! row * r ! p) [0..<D])) [0..<D]"

text \<open>The tokens of example \<open>i\<close> in the timestep-major input, and its reference run.\<close>

definition example_tokens :: "ThinStack \<Rightarrow> nat \<Rightarrow> fvec list" where
  "example_tokens s i = map (\<lambda>c. X s ! (c * batch_size (spec s) + i)) [0..<seq_length (spec s)]"

definition ref_example :: "ThinStack \<Rightarrow> nat \<Rightarrow> nat \<Rightarrow> ref_state option" where
  "ref_example s i n =
     ref_run (compose1 (params s) (model_dim (spec s))) (example_tokens s i) (transition_at s i) n"

definition well_formed :: "ThinStack \<Rightarrow> bool" where
  "well_formed s =
     list_all (\<lambda>i. ref_example s i (seq_length (spec s)) \<noteq> None) [0..<batch_size (spec s)]"

subsection \<open>Concrete inputs\<close>

text \<open>
  The end-to-end scenario of the specification: one example, two features, three
  timesteps, tokens \<open>[1,1]\<close>, \<open>[2,2]\<close>, \<open>[3,3]\<close> and transitions shift, shift, reduce. The
  fresh device memory holds 7 everywhere.
\<close>

definition scenario_spec :: ModelSpec where
  "scenario_spec = \<lparr>batch_size = 1, model_dim = 2, seq_length = 3\<rparr>"

definition scenario :: "ThinStackParameters \<Rightarrow> (nat \<Rightarrow> real) \<Rightarrow> (nat \<Rightarrow> int) \<Rightarrow> ThinStack" where
  "scenario ps uf ui =
     (ThinStack_new scenario_spec ps uf ui)\<lparr>X := [[1, 1], [2, 2], [3, 3]], transitions := [0, 0, 1]\<rparr>"

definition scenario_params :: ThinStackParameters where
  "scenario_params = \<lparr>compose_W_l = [[1, 0], [0, 1]], compose_W_r = [[2, 0], [0, 2]], compose_b = [1, 1]\<rparr>"

definition scenario7 :: ThinStack where
  "scenario7 = scenario scenario_params (\<lambda>_. 7) (\<lambda>_. 7)"

text \<open>Memory outside the arrays that holds 9 in every float and 5 in every index.\<close>

definition nines :: "nat \<Rightarrow> int \<Rightarrow> fvec" where
  "nines t k = [9, 9]"

definition fives :: "nat \<Rightarrow> int \<Rightarrow> int" where
  "fives t k = 5"

text \<open>
  Two examples, one feature, one timestep: example 0 shifts, example 1 reduces at
  \<open>t = 0\<close>.
\<close>

definition reduce_first :: ThinStack where
  "reduce_first =
     (ThinStack_new \<lparr>batch_size = 2, model_dim = 1, seq_length = 1\<rparr>
        \<lparr>compose_W_l = [[1]], compose_W_r = [[1]], compose_b = [1 / 2]\<rparr> (\<lambda>_. 7) (\<lambda>_. 7))
       \<lparr>X := [[1], [2]], transitions := [0, 1]\<rparr>"

definition nine1 :: "nat \<Rightarrow> int \<Rightarrow> fvec" where
  "nine1 t k = [9]"


text \<open>One example, one feature, one timestep, with weights 1 and bias one half.\<close>

definition tiny :: ThinStack where
  "tiny =
     ThinStack_new \<lparr>batch_size = 1, model_dim = 1, seq_length = 1\<rparr>
       \<lparr>compose_W_l = [[1]], compose_W_r = [[1]], compose_b = [1 / 2]\<rparr> (\<lambda>_. 7) (\<lambda>_. 7)"

subsection \<open>The relation between the thin stack and the reference\<close>

text \<open>
  After \<open>n\<close> steps the state \<open>st\<close> of the thin stack represents the reference stack
  \<open>stk\<close> (top first) of example \<open>i\<close> when, for every entry \<open>k\<close> of \<open>stk\<close>, which lies at
  depth \<open>length stk - k\<close>, the queue of the example holds at that depth the timestep
  \<open>q < n\<close> at which the entry was written and the stack row of timestep \<open>q\<close> holds the
  entry; the top entry was written by the last step.
\<close>

definition stack_matches :: "ThinStack \<Rightarrow> nat \<Rightarrow> nat \<Rightarrow> fvec list \<Rightarrow> bool" where
  "stack_matches st i n stk \<longleftrightarrow>
     (\<forall>k<length stk. \<exists>q<n.
        queue st ! (i * seq_length (spec st) + (length stk - k)) = int q \<and>
        (k = 0 \<longrightarrow> Suc q = n) \<and>
        stack st ! (q * batch_size (spec st) + i) = stk ! k)"

section \<open>Properties of the kernels and of one step\<close>

lemma length_subtensor1 [simp]:
  "length (subtensor1 out src idxs src_N N D a b c v) = N"
  by (simp add: subtensor1_def)

lemma nth_subtensor1:
  "i < N \<Longrightarrow> subtensor1 out src idxs src_N N D a b c v ! i =
     fetch out src (subtensor1_idx idxs a b c v i)"
  by (simp add: subtensor1_def)

lemma fetch_inside: "k < length src \<Longrightarrow> fetch out src (int k) = src ! k"
  by (simp add: fetch_def)

lemma fetch_negative: "k < 0 \<Longrightarrow> fetch out src k = out k"
  by (simp add: fetch_def)

lemma length_cublasSaxpy [simp]: "length (cublasSaxpy n a x incx y incy) = length y"
  by (simp add: cublasSaxpy_def)

lemma nth_cublasSaxpy:
  "j < length y \<Longrightarrow>
     cublasSaxpy n a x (Suc 0) y (Suc 0) ! j = (if j < n then a * x ! j + y ! j else y ! j)"
  by (simp add: cublasSaxpy_def)

lemma length_cublasSgemm [simp]: "length (cublasSgemm m n k al A Bm be C) = n"
  by (simp add: cublasSgemm_def)

lemma nth_cublasSgemm:
  "c < n \<Longrightarrow> cublasSgemm m n k al A Bm be C ! c =
     map (\<lambda>r. al * sum_list (map (\<lambda>p. A ! p ! r * Bm ! c ! p) [0..<k])
               + (if be = 0 then 0 else be * C ! c ! r)) [0..<m]"
  by (simp add: cublasSgemm_def)

lemma length_addi_vv [simp]: "length (addi_vv v1 v2 c1 c2 N) = length v1"
  by (simp add: addi_vv_def)

lemma nth_addi_vv:
  "i < length v1 \<Longrightarrow> i < N \<Longrightarrow> addi_vv v1 v2 c1 c2 N ! i = v1 ! i * c1 + v2 ! i * c2"
  by (simp add: addi_vv_def)

lemma length_set_subtensor1i_s [simp]:
  "length (set_subtensor1i_s dst v idxs N a c vs) = length dst"
  by (simp add: set_subtensor1i_s_def)

lemma nth_set_subtensor1i_s:
  "k < length dst \<Longrightarrow> set_subtensor1i_s dst v idxs N a c vs ! k =
     (if \<exists>i<N. idxs ! i + a + c * vs ! i = int k then v else dst ! k)"
  by (auto simp add: set_subtensor1i_s_def list_ex_iff)

lemma length_switch_m [simp]: "length (switch_m dst off m v1 v0 N D) = length dst"
  by (simp add: switch_m_def)

lemma nth_switch_m:
  "k < length dst \<Longrightarrow> switch_m dst off m v1 v0 N D ! k =
     (if off \<le> k \<and> k < off + N
      then (if m ! (k - off) = 1 then v1 ! (k - off) else v0 ! (k - off))
      else dst ! k)"
  by (simp add: switch_m_def)

lemmas step_unfold = step_def Let_def recurrence_def mask_and_update_stack_def
  mask_and_update_cursors_def update_buffer_cur_def

lemma step_frame [simp]:
  "spec (step outf outi t s) = spec s"
  "params (step outf outi t s) = params s"
  "X (step outf outi t s) = X s"
  "transitions (step outf outi t s) = transitions s"
  "buffer (step outf outi t s) = buffer s"
  "batch_ones (step outf outi t s) = batch_ones s"
  "batch_range (step outf outi t s) = batch_range s"
  by (simp_all add: step_unfold)

lemma step_cursors:
  "cursors (step outf outi t s) =
     cublasSaxpy (batch_size (spec s)) (- 2) (drop (t * batch_size (spec s)) (transitions s)) 1
       (cublasSaxpy (batch_size (spec s)) 1 (batch_ones s) 1 (cursors s) 1) 1"
  by (simp add: step_unfold)

lemma step_buffer_cur_t:
  "buffer_cur_t (step outf outi t s) =
     cublasSaxpy (batch_size (spec s)) (- 1) (drop (t * batch_size (spec s)) (transitions s)) 1
       (cublasSaxpy (batch_size (spec s)) 1 (batch_ones s) 1 (buffer_cur_t s) 1) 1"
  by (simp add: step_unfold)

lemma step_queue:
  "queue (step outf outi t s) =
     set_subtensor1i_s (queue s) (int t) (cursors (step outf outi t s)) (batch_size (spec s)) 0
       (int (seq_length (spec s))) (batch_range s)"
  by (simp add: step_unfold)

lemma step_buffer_top_t:
  "buffer_top_t (step outf outi t s) =
     subtensor1 outf (buffer s) (buffer_cur_t s) (batch_size (spec s) * model_dim (spec s))
       (batch_size (spec s)) (model_dim (spec s)) 0 (int (batch_size (spec s))) 1
       (Some (batch_range s))"
  by (simp add: step_unfold)

lemma step_stack_1_t:
  "stack_1_t (step outf outi t s) =
     subtensor1 outf (stack s) (batch_range s) (batch_size (spec s) * seq_length (spec s))
       (batch_size (spec s)) (model_dim (spec s)) ((int t - 1) * int (batch_size (spec s))) 1 0 None"
  by (simp add: step_unfold)

lemma step_stack_2_ptrs:
  "stack_2_ptrs (step outf outi t s) =
     addi_vv (subtensor1 outi (queue s) (cursors s) (batch_size (spec s)) (batch_size (spec s))
                (seq_length (spec s)) (- 1) 1 (int (seq_length (spec s))) (Some (batch_range s)))
       (batch_range s) (int (batch_size (spec s))) 1 (batch_size (spec s))"
  by (simp add: step_unfold)

lemma step_stack_2_t:
  "stack_2_t (step outf outi t s) =
     subtensor1 outf (stack s) (stack_2_ptrs (step outf outi t s))
       (batch_size (spec s) * seq_length (spec s)) (batch_size (spec s)) (model_dim (spec s))
       0 1 0 None"
  by (simp add: step_unfold)

lemma step_merge_output:
  "merge_output (step outf outi t s) =
     merge_output (recurrence (stack_1_t (step outf outi t s)) (stack_2_t (step outf outi t s))
                     (buffer_top_t (step outf outi t s)) s)"
  by (simp add: step_unfold)

lemma step_stack:
  "stack (step outf outi t s) =
     switch_m (stack s) (t * batch_size (spec s)) (drop (t * batch_size (spec s)) (transitions s))
       (merge_output (step outf outi t s)) (buffer_top_t (step outf outi t s))
       (batch_size (spec s)) (model_dim (spec s))"
  by (simp add: step_unfold)

lemma sum_list_upt_sum: "sum_list (map f [0..<n]) = (\<Sum>p<n. f p)"
  by (simp add: interv_sum_list_conv_sum_set_nat atLeast0LessThan)

text \<open>What \<^verbatim>\<open>recurrence\<close> computes, entry by entry, and that it changes nothing else.\<close>

lemma recurrence_computes:
  assumes "c < batch_size (spec s)" "r < model_dim (spec s)"
  shows "merge_output (recurrence R L bt s) ! c ! r =
           (\<Sum>p<model_dim (spec s). compose_W_l (params s) ! p ! r * L ! c ! p)
           + (\<Sum>p<model_dim (spec s). compose_W_r (params s) ! p ! r * R ! c ! p) \<and>
         recurrence R L bt s = s\<lparr>merge_output := merge_output (recurrence R L bt s)\<rparr>"
  using assms
  by (simp add: recurrence_def Let_def nth_cublasSgemm sum_list_upt_sum)


section \<open>The loop\<close>

lemma steps_frame [simp]:
  "spec (steps outf outi n s) = spec s"
  "params (steps outf outi n s) = params s"
  "X (steps outf outi n s) = X s"
  "transitions (steps outf outi n s) = transitions s"
  "buffer (steps outf outi n s) = buffer s"
  "batch_ones (steps outf outi n s) = batch_ones s"
  "batch_range (steps outf outi n s) = batch_range s"
  by (induction n) simp_all

lemma step_lengths [simp]:
  "length (cursors (step outf outi t s)) = length (cursors s)"
  "length (buffer_cur_t (step outf outi t s)) = length (buffer_cur_t s)"
  "length (queue (step outf outi t s)) = length (queue s)"
  "length (stack (step outf outi t s)) = length (stack s)"
  by (simp_all add: step_cursors step_buffer_cur_t step_queue step_stack)

lemma steps_lengths [simp]:
  "length (cursors (steps outf outi n s)) = length (cursors s)"
  "length (buffer_cur_t (steps outf outi n s)) = length (buffer_cur_t s)"
  "length (queue (steps outf outi n s)) = length (queue s)"
  "length (stack (steps outf outi n s)) = length (stack s)"
  by (induction n) simp_all

lemma forward_init_frame [simp]:
  "spec (forward_init s) = spec s"
  "params (forward_init s) = params s"
  "X (forward_init s) = X s"
  "transitions (forward_init s) = transitions s"
  "buffer (forward_init s) = X s"
  "batch_ones (forward_init s) = batch_ones s"
  "batch_range (forward_init s) = batch_range s"
  by (simp_all add: forward_init_def zero_def)

lemma forward_init_zeroed [simp]:
  "stack (forward_init s) =
     replicate (seq_length (spec s) * batch_size (spec s)) (replicate (model_dim (spec s)) 0)"
  "queue (forward_init s) = replicate (batch_size (spec s) * seq_length (spec s)) 0"
  "cursors (forward_init s) = replicate (batch_size (spec s)) 0"
  "buffer_cur_t (forward_init s) = replicate (batch_size (spec s)) 0"
  by (simp_all add: forward_init_def zero_def stack_total_cols_def stack_size_def
      queue_total_size_def cursors_total_size_def)

lemma transitions_t_nth:
  assumes "ready s" "t < seq_length (spec s)" "i < batch_size (spec s)"
  shows "drop (t * batch_size (spec s)) (transitions s) ! i = transition_at s i t"
proof -
  have "t * batch_size (spec s) \<le> seq_length (spec s) * batch_size (spec s)"
    using assms(2) by (intro mult_le_mono1) simp
  then have "t * batch_size (spec s) \<le> length (transitions s)"
    using assms(1) by (simp add: ready_def)
  then show ?thesis by (simp add: transition_at_def)
qed

lemma step_cursors_nth:
  assumes "ready s" "t < seq_length (spec s)" "i < batch_size (spec s)"
    and "length (cursors s) = batch_size (spec s)"
  shows "cursors (step outf outi t s) ! i = cursors s ! i + 1 - 2 * transition_at s i t"
  using assms transitions_t_nth [OF assms(1-3)]
  by (simp add: step_cursors nth_cublasSaxpy ready_def helpers_ok_def)

lemma step_buffer_cur_nth:
  assumes "ready s" "t < seq_length (spec s)" "i < batch_size (spec s)"
    and "length (buffer_cur_t s) = batch_size (spec s)"
  shows "buffer_cur_t (step outf outi t s) ! i = buffer_cur_t s ! i + 1 - transition_at s i t"
  using assms transitions_t_nth [OF assms(1-3)]
  by (simp add: step_buffer_cur_t nth_cublasSaxpy ready_def helpers_ok_def)

lemma ready_steps [simp]: "ready (steps outf outi n s) = ready s"
  by (simp add: ready_def helpers_ok_def)

lemma ready_forward_init [simp]: "ready (forward_init s) = ready s"
  by (simp add: ready_def helpers_ok_def)

lemma transition_at_steps [simp]: "transition_at (steps outf outi n s) = transition_at s"
  by (simp add: transition_at_def fun_eq_iff)

lemma transition_at_forward_init [simp]: "transition_at (forward_init s) = transition_at s"
  by (simp add: transition_at_def fun_eq_iff)

lemma steps_cursors_sum:
  assumes "ready s" "n \<le> seq_length (spec s)" "i < batch_size (spec s)"
  shows "cursors (steps outf outi n (forward_init s)) ! i = (\<Sum>u<n. 1 - 2 * transition_at s i u)"
  using assms(2)
proof (induction n)
  case 0
  show ?case using assms(3) by simp
next
  case (Suc n)
  then have "cursors (steps outf outi (Suc n) (forward_init s)) ! i =
      cursors (steps outf outi n (forward_init s)) ! i + 1 - 2 * transition_at s i n"
    using assms(1,3) by (simp add: step_cursors_nth)
  with Suc show ?case by simp
qed

lemma steps_buffer_cur_sum:
  assumes "ready s" "n \<le> seq_length (spec s)" "i < batch_size (spec s)"
  shows "buffer_cur_t (steps outf outi n (forward_init s)) ! i = (\<Sum>u<n. 1 - transition_at s i u)"
  using assms(2)
proof (induction n)
  case 0
  show ?case using assms(3) by simp
next
  case (Suc n)
  then have "buffer_cur_t (steps outf outi (Suc n) (forward_init s)) ! i =
      buffer_cur_t (steps outf outi n (forward_init s)) ! i + 1 - transition_at s i n"
    using assms(1,3) by (simp add: step_buffer_cur_nth)
  with Suc show ?case by simp
qed

lemma binary_upto_Suc:
  "binary_upto s i (Suc n) \<longleftrightarrow>
     binary_upto s i n \<and> (transition_at s i n = 0 \<or> transition_at s i n = 1)"
  by (simp add: binary_upto_def)

lemma shift_sum_count:
  "binary_upto s i n \<Longrightarrow> (\<Sum>u<n. 1 - transition_at s i u) = int (shifts_upto s i n)"
  by (induction n) (auto simp add: binary_upto_Suc shifts_upto_def)

lemma depth_sum_count:
  "binary_upto s i n \<Longrightarrow>
     (\<Sum>u<n. 1 - 2 * transition_at s i u) = int (shifts_upto s i n) - int (reduces_upto s i n)"
  by (induction n) (auto simp add: binary_upto_Suc shifts_upto_def reduces_upto_def)

lemma step_merge_output_nth:
  assumes "c < batch_size (spec s)"
  shows "merge_output (step outf outi t s) ! c =
     compose1 (params s) (model_dim (spec s))
       (stack_2_t (step outf outi t s) ! c) (stack_1_t (step outf outi t s) ! c)"
  using assms
  by (simp add: step_merge_output recurrence_def Let_def nth_cublasSgemm compose1_def)

lemma step_stack_outside:
  assumes "k < length (stack s)"
    and "k < t * batch_size (spec s) \<or> t * batch_size (spec s) + batch_size (spec s) \<le> k"
  shows "stack (step outf outi t s) ! k = stack s ! k"
  using assms by (auto simp add: step_stack nth_switch_m)

lemma step_stack_row:
  assumes "ready s" "t < seq_length (spec s)" "i < batch_size (spec s)"
    and "t * batch_size (spec s) + i < length (stack s)"
  shows "stack (step outf outi t s) ! (t * batch_size (spec s) + i) =
     (if transition_at s i t = 1 then merge_output (step outf outi t s) ! i
      else buffer_top_t (step outf outi t s) ! i)"
  using assms transitions_t_nth [OF assms(1-3)]
  by (simp add: step_stack nth_switch_m)

lemma steps_stack_kept:
  assumes "k < length (stack s)" "k < m * batch_size (spec s)" "m \<le> n"
  shows "stack (steps outf outi n s) ! k = stack (steps outf outi m s) ! k"
  using assms(3)
proof (induction n)
  case 0
  then show ?case by simp
next
  case (Suc n)
  show ?case
  proof (cases "m = Suc n")
    case True
    then show ?thesis by simp
  next
    case False
    with Suc.prems have mn: "m \<le> n" by simp
    then have "m * batch_size (spec s) \<le> n * batch_size (spec s)"
      by (rule mult_le_mono1)
    with assms(2) have "k < n * batch_size (spec s)" by (rule less_le_trans)
    then have "stack (steps outf outi (Suc n) s) ! k = stack (steps outf outi n s) ! k"
      using assms(1) by (simp add: step_stack_outside)
    with Suc.IH [OF mn] show ?thesis by simp
  qed
qed

lemma step_queue_nth_written:
  assumes "i < batch_size (spec s)" "helpers_ok s"
    and "0 \<le> cursors (step outf outi t s) ! i + int (i * seq_length (spec s))"
    and "nat (cursors (step outf outi t s) ! i + int (i * seq_length (spec s))) < length (queue s)"
  shows "queue (step outf outi t s) ! nat (cursors (step outf outi t s) ! i + int (i * seq_length (spec s)))
           = int t"
proof -
  let ?k = "nat (cursors (step outf outi t s) ! i + int (i * seq_length (spec s)))"
  have "cursors (step outf outi t s) ! i + 0 + int (seq_length (spec s)) * batch_range s ! i = int ?k"
    using assms(1-3) by (simp add: helpers_ok_def mult.commute)
  with assms(1) have "\<exists>j<batch_size (spec s).
      cursors (step outf outi t s) ! j + 0 + int (seq_length (spec s)) * batch_range s ! j = int ?k"
    by blast
  then show ?thesis
    using assms(4) by (simp only: step_queue nth_set_subtensor1i_s if_True)
qed

lemma step0_stack_1_t:
  assumes "helpers_ok s" "i < batch_size (spec s)"
  shows "stack_1_t (step outf outi 0 s) ! i = outf (int i - int (batch_size (spec s)))"
proof -
  have "subtensor1_idx (batch_range s) ((int 0 - 1) * int (batch_size (spec s))) 1 0 None i
      = int i - int (batch_size (spec s))"
    using assms by (simp add: subtensor1_idx_def helpers_ok_def)
  moreover have "int i - int (batch_size (spec s)) < 0" using assms(2) by simp
  ultimately show ?thesis
    using assms(2) by (simp add: step_stack_1_t nth_subtensor1 fetch_negative)
qed

section \<open>The end-to-end scenario, step by step\<close>





section \<open>The queue reconstructs the reference stack\<close>

lemma ref_run_Suc_Some:
  assumes "ref_run cmp toks tr (Suc n) = Some st'"
  obtains st where "ref_run cmp toks tr n = Some st" "ref_step cmp toks (tr n) st = Some st'"
  using assms by (auto split: option.splits)

lemma ref_run_prefix:
  assumes "ref_run cmp toks tr n \<noteq> None" "m \<le> n"
  shows "ref_run cmp toks tr m \<noteq> None"
  using assms
proof (induction n)
  case 0
  then show ?case by simp
next
  case (Suc n)
  show ?case
  proof (cases "m = Suc n")
    case True
    with Suc.prems show ?thesis by simp
  next
    case False
    with Suc.prems have "m \<le> n" by simp
    moreover have "ref_run cmp toks tr n \<noteq> None"
      using Suc.prems(1) by (auto split: option.splits)
    ultimately show ?thesis by (rule Suc.IH [rotated])
  qed
qed

lemma ref_step_cases:
  assumes "ref_step cmp toks a (stk, cur) = Some (stk', cur')"
  obtains (shift) "a = 0" "cur < length toks" "stk' = toks ! cur # stk" "cur' = Suc cur"
  | (reduce) r l rest where "a = 1" "stk = r # l # rest" "stk' = cmp l r # rest" "cur' = cur"
  using assms by (auto split: if_splits list.splits)

lemma ref_run_shape:
  assumes "ref_run cmp toks tr n = Some (stk, cur)"
  shows "int (length stk) = (\<Sum>u<n. 1 - 2 * tr u) \<and> int cur = (\<Sum>u<n. 1 - tr u) \<and>
         length stk \<le> n \<and> cur \<le> n \<and> (0 < n \<longrightarrow> stk \<noteq> [])"
  using assms
proof (induction n arbitrary: stk cur)
  case 0
  then show ?case by simp
next
  case (Suc n)
  from Suc.prems obtain st where st: "ref_run cmp toks tr n = Some st"
    and step: "ref_step cmp toks (tr n) st = Some (stk, cur)"
    by (rule ref_run_Suc_Some)
  obtain stk0 cur0 where st0: "st = (stk0, cur0)" by (cases st)
  note IH = Suc.IH [OF st [unfolded st0]]
  from step [unfolded st0] show ?case
  proof (cases rule: ref_step_cases)
    case shift
    with IH show ?thesis by simp
  next
    case (reduce r l rest)
    with IH show ?thesis by simp
  qed
qed

lemma slot_unique:
  fixes a b T i j :: nat
  assumes "a < T" "b < T" "a + T * j = b + T * i"
  shows "j = i \<and> a = b"
proof -
  have "(a + T * j) div T = j" "(a + T * j) mod T = a" using assms(1) by simp_all
  moreover have "(b + T * i) div T = i" "(b + T * i) mod T = b" using assms(2) by simp_all
  ultimately show ?thesis using assms(3) by simp
qed

lemma well_formed_example:
  assumes "well_formed s" "j < batch_size (spec s)" "n \<le> seq_length (spec s)"
  obtains stk cur where "ref_example s j n = Some (stk, cur)"
proof -
  have "ref_example s j (seq_length (spec s)) \<noteq> None"
    using assms(1,2) by (simp add: well_formed_def list_all_iff)
  then have "ref_example s j n \<noteq> None"
    unfolding ref_example_def using assms(3) by (rule ref_run_prefix)
  then show thesis using that by (cases "ref_example s j n") auto
qed

lemma cursors_ref:
  assumes "ready s" "n \<le> seq_length (spec s)" "j < batch_size (spec s)"
    and "ref_example s j n = Some (stk, cur)"
  shows "cursors (steps outf outi n (forward_init s)) ! j = int (length stk)"
    and "buffer_cur_t (steps outf outi n (forward_init s)) ! j = int cur"
  using ref_run_shape [OF assms(4) [unfolded ref_example_def]]
    steps_cursors_sum [OF assms(1-3)] steps_buffer_cur_sum [OF assms(1-3)]
  by simp_all

lemma row_index_bound:
  fixes q n T B i :: nat
  assumes "q < n" "n \<le> T" "i < B"
  shows "q * B + i < n * B" "q * B + i < T * B"
proof -
  have "q * B + i < Suc q * B" using assms(3) by simp
  also have "Suc q * B \<le> n * B" using assms(1) by (intro mult_le_mono1) simp
  finally show a: "q * B + i < n * B" .
  have "n * B \<le> T * B" using assms(2) by (rule mult_le_mono1)
  with a show "q * B + i < T * B" by (rule less_le_trans)
qed

lemma step_children:
  assumes rdy: "ready s" and n: "n < seq_length (spec s)" and i: "i < batch_size (spec s)"
    and cur: "cursors st ! i = int (length stk)"
    and stk: "stk = r # l # rest" and len: "length stk \<le> n"
    and lens: "length (stack st) = seq_length (spec s) * batch_size (spec s)"
      "length (queue st) = batch_size (spec s) * seq_length (spec s)"
    and fr: "spec st = spec s" "batch_range st = batch_range s"
    and m: "stack_matches st i n stk"
  shows "stack_1_t (step outf outi n st) ! i = r"
    and "stack_2_t (step outf outi n st) ! i = l"
    and "stack_2_ptrs (step outf outi n st) ! i =
           queue st ! (i * seq_length (spec s) + (length stk - 1)) * int (batch_size (spec s)) + int i"
proof -
  let ?B = "batch_size (spec s)" and ?T = "seq_length (spec s)"
  have br: "batch_range s ! i = int i"
    using rdy i by (simp add: ready_def helpers_ok_def)
  from m stk obtain q0 where q0: "q0 < n" "Suc q0 = n" "stack st ! (q0 * ?B + i) = r"
    unfolding stack_matches_def fr by force
  from m stk obtain q1 where q1: "q1 < n"
    "queue st ! (i * ?T + (length stk - 1)) = int q1" "stack st ! (q1 * ?B + i) = l"
    unfolding stack_matches_def fr by force
  have nT: "n \<le> ?T" using n by simp
  have idx0: "subtensor1_idx (batch_range s) ((int n - 1) * int ?B) 1 0 None i = int (q0 * ?B + i)"
    using q0(2) br by (auto simp add: subtensor1_idx_def algebra_simps)
  have in0: "q0 * ?B + i < length (stack st)"
    unfolding lens using q0(1) nT i by (rule row_index_bound)
  have "stack_1_t (step outf outi n st) ! i =
      fetch outf (stack st) (subtensor1_idx (batch_range s) ((int n - 1) * int ?B) 1 0 None i)"
    unfolding step_stack_1_t fr by (rule nth_subtensor1 [OF i])
  also have "\<dots> = stack st ! (q0 * ?B + i)"
    unfolding idx0 by (rule fetch_inside [OF in0])
  finally show "stack_1_t (step outf outi n st) ! i = r" using q0(3) by simp
  have d: "2 \<le> length stk" using stk by simp
  have "i * ?T + (length stk - 1) < Suc i * ?T" using len n d by simp
  also have "Suc i * ?T \<le> ?B * ?T" using i by (intro mult_le_mono1) simp
  finally have slot: "i * ?T + (length stk - 1) < length (queue st)" unfolding lens .
  have idxq: "subtensor1_idx (cursors st) (- 1) 1 (int ?T) (Some (batch_range s)) i
      = int (i * ?T + (length stk - 1))"
    using d br by (simp add: subtensor1_idx_def cur algebra_simps of_nat_diff)
  have "subtensor1 outi (queue st) (cursors st) ?B ?B ?T (- 1) 1 (int ?T) (Some (batch_range s)) ! i
      = fetch outi (queue st)
          (subtensor1_idx (cursors st) (- 1) 1 (int ?T) (Some (batch_range s)) i)"
    by (rule nth_subtensor1 [OF i])
  also have "\<dots> = queue st ! (i * ?T + (length stk - 1))"
    unfolding idxq by (rule fetch_inside [OF slot])
  finally have g: "subtensor1 outi (queue st) (cursors st) ?B ?B ?T (- 1) 1 (int ?T)
      (Some (batch_range s)) ! i = queue st ! (i * ?T + (length stk - 1))" .
  have "stack_2_ptrs (step outf outi n st) ! i =
      subtensor1 outi (queue st) (cursors st) ?B ?B ?T (- 1) 1 (int ?T) (Some (batch_range s)) ! i
        * int ?B + batch_range s ! i * 1"
    unfolding step_stack_2_ptrs fr by (rule nth_addi_vv) (simp_all add: i)
  then show p: "stack_2_ptrs (step outf outi n st) ! i =
      queue st ! (i * ?T + (length stk - 1)) * int ?B + int i"
    unfolding g br by simp
  have idx1: "subtensor1_idx (stack_2_ptrs (step outf outi n st)) 0 1 0 None i = int (q1 * ?B + i)"
    using p q1(2) by (simp add: subtensor1_idx_def)
  have in1: "q1 * ?B + i < length (stack st)"
    unfolding lens using q1(1) nT i by (rule row_index_bound)
  have "stack_2_t (step outf outi n st) ! i =
      fetch outf (stack st) (subtensor1_idx (stack_2_ptrs (step outf outi n st)) 0 1 0 None i)"
    unfolding step_stack_2_t fr by (rule nth_subtensor1 [OF i])
  also have "\<dots> = stack st ! (q1 * ?B + i)"
    unfolding idx1 by (rule fetch_inside [OF in1])
  finally show "stack_2_t (step outf outi n st) ! i = l" using q1(3) by simp
qed

lemma stack_matches_push:
  assumes m: "stack_matches st i n stk0"
    and len: "length stk0 = length rest + off"
    and tl: "\<And>k. k < length rest \<Longrightarrow> rest ! k = stk0 ! (k + off)"
    and sp: "spec st' = spec st"
    and top: "queue st' ! (i * seq_length (spec st) + Suc (length rest)) = int n"
      "stack st' ! (n * batch_size (spec st) + i) = new"
    and qfr: "\<And>p. 1 \<le> p \<Longrightarrow> p \<le> length rest \<Longrightarrow>
        queue st' ! (i * seq_length (spec st) + p) = queue st ! (i * seq_length (spec st) + p)"
    and sfr: "\<And>q. q < n \<Longrightarrow>
        stack st' ! (q * batch_size (spec st) + i) = stack st ! (q * batch_size (spec st) + i)"
  shows "stack_matches st' i (Suc n) (new # rest)"
  unfolding stack_matches_def sp
proof (intro allI impI)
  fix k assume k: "k < length (new # rest)"
  show "\<exists>q<Suc n. queue st' ! (i * seq_length (spec st) + (length (new # rest) - k)) = int q \<and>
      (k = 0 \<longrightarrow> Suc q = Suc n) \<and>
      stack st' ! (q * batch_size (spec st) + i) = (new # rest) ! k"
  proof (cases k)
    case 0
    with top show ?thesis by (intro exI [of _ n]) simp
  next
    case (Suc k')
    with k have k': "k' < length rest" by simp
    then have "k' + off < length stk0" using len by simp
    with m obtain q where q: "q < n"
      "queue st ! (i * seq_length (spec st) + (length stk0 - (k' + off))) = int q"
      "stack st ! (q * batch_size (spec st) + i) = stk0 ! (k' + off)"
      unfolding stack_matches_def by blast
    have slot: "length stk0 - (k' + off) = length rest - k'" using len by simp
    have "queue st' ! (i * seq_length (spec st) + (length rest - k')) = int q"
      using qfr [of "length rest - k'"] k' q(2) slot by simp
    moreover have "stack st' ! (q * batch_size (spec st) + i) = rest ! k'"
      using sfr [OF q(1)] q(3) tl [OF k'] by simp
    ultimately show ?thesis
      using q(1) Suc by (intro exI [of _ q]) simp
  qed
qed

lemma queue_step_slot:
  assumes rdy: "ready s" and wf: "well_formed s" and n: "Suc n < seq_length (spec s)"
    and i: "i < batch_size (spec s)" and p: "1 \<le> p" "p < seq_length (spec s)"
    and ex: "ref_example s i (Suc n) = Some (stk', cur')"
  shows "queue (steps outf outi (Suc n) (forward_init s)) ! (i * seq_length (spec s) + p) =
     (if p = length stk' then int n
      else queue (steps outf outi n (forward_init s)) ! (i * seq_length (spec s) + p))"
proof -
  let ?B = "batch_size (spec s)" and ?T = "seq_length (spec s)"
  let ?st = "steps outf outi n (forward_init s)"
  let ?st' = "steps outf outi (Suc n) (forward_init s)"
  have nT: "Suc n \<le> ?T" using n by simp
  have br: "\<And>j. j < ?B \<Longrightarrow> batch_range s ! j = int j"
    using rdy by (simp add: ready_def helpers_ok_def)
  have "i * ?T + p < Suc i * ?T" using p by simp
  also have "Suc i * ?T \<le> ?B * ?T" using i by (intro mult_le_mono1) simp
  finally have k: "i * ?T + p < length (queue ?st)" by simp
  have hit: "(\<exists>j<?B. cursors ?st' ! j + 0 + int ?T * batch_range s ! j = int (i * ?T + p))
      \<longleftrightarrow> p = length stk'"
  proof
    assume "\<exists>j<?B. cursors ?st' ! j + 0 + int ?T * batch_range s ! j = int (i * ?T + p)"
    then obtain j where j: "j < ?B"
      and eq: "cursors ?st' ! j + 0 + int ?T * batch_range s ! j = int (i * ?T + p)" by blast
    from wf j nT obtain stkj curj where exj: "ref_example s j (Suc n) = Some (stkj, curj)"
      by (rule well_formed_example)
    have cj: "cursors ?st' ! j = int (length stkj)"
      by (rule cursors_ref(1) [OF rdy nT j exj])
    have shj: "length stkj \<le> Suc n"
      using ref_run_shape [OF exj [unfolded ref_example_def]] by simp
    from eq have "int (length stkj + ?T * j) = int (p + ?T * i)"
      unfolding cj br [OF j] by (simp add: algebra_simps)
    then have "length stkj + ?T * j = p + ?T * i" by (simp only: of_nat_eq_iff)
    moreover have "length stkj < ?T" using shj n by simp
    ultimately have "j = i \<and> length stkj = p" using p(2) by (intro slot_unique)
    with exj ex show "p = length stk'" by simp
  next
    assume "p = length stk'"
    then have "cursors ?st' ! i + 0 + int ?T * batch_range s ! i = int (i * ?T + p)"
      using cursors_ref(1) [OF rdy nT i ex, of outf outi] br [OF i] by (simp add: algebra_simps)
    with i show "\<exists>j<?B. cursors ?st' ! j + 0 + int ?T * batch_range s ! j = int (i * ?T + p)"
      by blast
  qed
  have "queue ?st' ! (i * ?T + p) =
      (if \<exists>j<?B. cursors ?st' ! j + 0 + int ?T * batch_range s ! j = int (i * ?T + p)
       then int n else queue ?st ! (i * ?T + p))"
    using nth_set_subtensor1i_s [OF k, of "int n" "cursors ?st'" ?B 0 "int ?T" "batch_range s"]
    by (simp add: step_queue)
  then show ?thesis unfolding hit .
qed

lemma step_buffer_top_nth:
  assumes rdy: "ready s" and i: "i < batch_size (spec s)" and c: "cur < seq_length (spec s)"
    and b: "buffer_cur_t st ! i = int cur"
    and fr: "spec st = spec s" "batch_range st = batch_range s" "buffer st = X s"
  shows "buffer_top_t (step outf outi n st) ! i = example_tokens s i ! cur"
proof -
  let ?B = "batch_size (spec s)" and ?T = "seq_length (spec s)"
  have br: "batch_range s ! i = int i"
    using rdy i by (simp add: ready_def helpers_ok_def)
  have idx: "subtensor1_idx (buffer_cur_t st) 0 (int ?B) 1 (Some (batch_range s)) i
      = int (cur * ?B + i)"
    using br by (simp add: subtensor1_idx_def b)
  have "cur * ?B + i < ?T * ?B" using c _ i by (rule row_index_bound) simp
  then have inside: "cur * ?B + i < length (X s)" using rdy by (simp add: ready_def)
  have "buffer_top_t (step outf outi n st) ! i =
      fetch outf (X s) (subtensor1_idx (buffer_cur_t st) 0 (int ?B) 1 (Some (batch_range s)) i)"
    unfolding step_buffer_top_t fr by (rule nth_subtensor1 [OF i])
  also have "\<dots> = X s ! (cur * ?B + i)"
    unfolding idx by (rule fetch_inside [OF inside])
  finally show ?thesis using c by (simp add: example_tokens_def)
qed

lemma stack_matches_steps:
  assumes rdy: "ready s" and wf: "well_formed s" and i: "i < batch_size (spec s)"
  shows "n < seq_length (spec s) \<Longrightarrow> ref_example s i n = Some (stk, cur) \<Longrightarrow>
         stack_matches (steps outf outi n (forward_init s)) i n stk"
proof (induction n arbitrary: stk cur)
  case 0
  then show ?case by (simp add: ref_example_def stack_matches_def)
next
  case (Suc n)
  let ?B = "batch_size (spec s)" and ?T = "seq_length (spec s)" and ?D = "model_dim (spec s)"
  let ?st = "steps outf outi n (forward_init s)"
  let ?st' = "steps outf outi (Suc n) (forward_init s)"
  let ?cmp = "compose1 (params s) ?D"
  have st': "?st' = step (outf n) (outi n) n ?st" by simp
  have n: "n < ?T" "n \<le> ?T" "Suc n \<le> ?T" using Suc.prems(1) by simp_all
  from Suc.prems(2) [unfolded ref_example_def] obtain st0
    where r0: "ref_run ?cmp (example_tokens s i) (transition_at s i) n = Some st0"
      and rs: "ref_step ?cmp (example_tokens s i) (transition_at s i n) st0 = Some (stk, cur)"
    by (rule ref_run_Suc_Some)
  obtain stk0 cur0 where st0: "st0 = (stk0, cur0)" by (cases st0)
  have ex0: "ref_example s i n = Some (stk0, cur0)"
    using r0 st0 by (simp add: ref_example_def)
  have IH: "stack_matches ?st i n stk0" using n(1) ex0 by (rule Suc.IH)
  have sh0: "length stk0 \<le> n"
    using ref_run_shape [OF r0 [unfolded st0]] by simp
  have sh: "length stk \<le> Suc n" "stk \<noteq> []"
    using ref_run_shape [OF Suc.prems(2) [unfolded ref_example_def]] by simp_all
  have c0: "cursors ?st ! i = int (length stk0)" and b0: "buffer_cur_t ?st ! i = int cur0"
    using cursors_ref [OF rdy n(2) i ex0] by simp_all
  have rdy_st: "ready ?st" using rdy by simp
  have lens: "length (stack ?st) = ?T * ?B" "length (queue ?st) = ?B * ?T" by simp_all
  have top_in: "n * ?B + i < length (stack ?st)"
    unfolding lens using n(1) _ i by (rule row_index_bound) simp
  have sfr: "stack ?st' ! (q * ?B + i) = stack ?st ! (q * ?B + i)" if "q < n" for q
  proof -
    have "q * ?B + i < n * ?B" "q * ?B + i < ?T * ?B"
      using that n(2) i by (rule row_index_bound)+
    then show ?thesis unfolding st' by (intro step_stack_outside) simp_all
  qed
  have qtop: "queue ?st' ! (i * ?T + length stk) = int n"
    using queue_step_slot [OF rdy wf Suc.prems(1) i _ _ Suc.prems(2), of "length stk" outf outi]
      sh Suc.prems(1) by (cases stk) simp_all
  have qfr: "queue ?st' ! (i * ?T + p) = queue ?st ! (i * ?T + p)"
    if "1 \<le> p" "p < length stk" for p
    using queue_step_slot [OF rdy wf Suc.prems(1) i _ _ Suc.prems(2), of p outf outi]
      that sh Suc.prems(1) by simp
  have row: "stack ?st' ! (n * ?B + i) =
      (if transition_at s i n = 1 then merge_output ?st' ! i else buffer_top_t ?st' ! i)"
    using step_stack_row [OF rdy_st, of n i "outf n" "outi n"] n(1) i top_in
    unfolding st' by simp
  from rs [unfolded st0] show ?case
  proof (cases rule: ref_step_cases)
    case shift
    have "buffer_top_t ?st' ! i = example_tokens s i ! cur0"
      unfolding st' using shift(2) b0
      by (intro step_buffer_top_nth [OF rdy i]) (simp_all add: example_tokens_def)
    with row shift(1) have new: "stack ?st' ! (n * ?B + i) = example_tokens s i ! cur0" by simp
    show ?thesis
      unfolding shift(3)
    proof (rule stack_matches_push [OF IH, where off = 0])
      show "length stk0 = length stk0 + 0" by simp
      show "stk0 ! k = stk0 ! (k + 0)" for k by simp
      show "spec ?st' = spec ?st" by simp
      show "queue ?st' ! (i * seq_length (spec ?st) + Suc (length stk0)) = int n"
        using qtop shift(3) by simp
      show "stack ?st' ! (n * batch_size (spec ?st) + i) = example_tokens s i ! cur0"
        using new by simp
      show "queue ?st' ! (i * seq_length (spec ?st) + p) = queue ?st ! (i * seq_length (spec ?st) + p)"
        if "1 \<le> p" "p \<le> length stk0" for p
        using qfr [of p] that shift(3) by simp
      show "stack ?st' ! (q * batch_size (spec ?st) + i) = stack ?st ! (q * batch_size (spec ?st) + i)"
        if "q < n" for q
        using sfr [OF that] by simp
    qed
  next
    case (reduce r l rest)
    have ch: "stack_1_t (step (outf n) (outi n) n ?st) ! i = r"
      "stack_2_t (step (outf n) (outi n) n ?st) ! i = l"
      using step_children [OF rdy n(1) i c0 reduce(2) sh0 lens _ _ IH, of "outf n" "outi n"]
      by simp_all
    have "merge_output ?st' ! i = ?cmp l r"
      unfolding st' using step_merge_output_nth [of i ?st "outf n" "outi n" n] i ch by simp
    with row reduce(1) have new: "stack ?st' ! (n * ?B + i) = ?cmp l r" by simp
    show ?thesis
      unfolding reduce(3)
    proof (rule stack_matches_push [OF IH, where off = 2])
      show "length stk0 = length rest + 2" using reduce(2) by simp
      show "rest ! k = stk0 ! (k + 2)" for k using reduce(2) by simp
      show "spec ?st' = spec ?st" by simp
      show "queue ?st' ! (i * seq_length (spec ?st) + Suc (length rest)) = int n"
        using qtop reduce(3) by simp
      show "stack ?st' ! (n * batch_size (spec ?st) + i) = ?cmp l r"
        using new by simp
      show "queue ?st' ! (i * seq_length (spec ?st) + p) = queue ?st ! (i * seq_length (spec ?st) + p)"
        if "1 \<le> p" "p \<le> length rest" for p
        using qfr [of p] that reduce(3) by simp
      show "stack ?st' ! (q * batch_size (spec ?st) + i) = stack ?st ! (q * batch_size (spec ?st) + i)"
        if "q < n" for q
        using sfr [OF that] by simp
    qed
  qed
qed

section \<open>Claims\<close>

text \<open>
  C10. After every step \<open>t\<close> the array \<^verbatim>\<open>cursors\<close> holds, for example \<open>i\<close>, the number
  of shifts minus the number of reduces among the transitions \<open>0, ..., t\<close> of that
  example, which is the depth of its stack: each step adds \<open>1 - 2 * transition\<close> to it.
  The accumulator \<^verbatim>\<open>buffer_cur_t\<close> is a second array, to which each step adds
  \<open>1 - transition\<close>. Only the transitions being 0 or 1 is used for this. Where the
  reference simulation of the example runs through the transitions \<open>0, ..., t\<close>,
  \<^verbatim>\<open>cursors\<close> is the depth of the reference stack and \<^verbatim>\<open>buffer_cur_t\<close> the number of
  tokens the reference has consumed.
\<close>

theorem cursors_track_depth:
  assumes "ready s" "t < seq_length (spec s)" "i < batch_size (spec s)"
    and "binary_upto s i (Suc t)"
  shows "cursors (steps outf outi (Suc t) (forward_init s)) ! i =
           int (shifts_upto s i (Suc t)) - int (reduces_upto s i (Suc t)) \<and>
         cursors (steps outf outi (Suc t) (forward_init s)) ! i =
           cursors (steps outf outi t (forward_init s)) ! i + (1 - 2 * transition_at s i t) \<and>
         buffer_cur_t (steps outf outi (Suc t) (forward_init s)) ! i =
           buffer_cur_t (steps outf outi t (forward_init s)) ! i + (1 - transition_at s i t) \<and>
         (ref_example s i (Suc t) = Some (stk, cur) \<longrightarrow>
            cursors (steps outf outi (Suc t) (forward_init s)) ! i = int (length stk) \<and>
            buffer_cur_t (steps outf outi (Suc t) (forward_init s)) ! i = int cur)"
proof -
  have le: "Suc t \<le> seq_length (spec s)" "t \<le> seq_length (spec s)"
    using assms(2) by simp_all
  have depth: "ref_example s i (Suc t) = Some (stk, cur) \<longrightarrow>
      cursors (steps outf outi (Suc t) (forward_init s)) ! i = int (length stk) \<and>
      buffer_cur_t (steps outf outi (Suc t) (forward_init s)) ! i = int cur"
    using cursors_ref [OF assms(1) le(1) assms(3), of stk cur outf outi] by blast
  have "cursors (steps outf outi (Suc t) (forward_init s)) ! i =
      (\<Sum>u<Suc t. 1 - 2 * transition_at s i u)"
    by (rule steps_cursors_sum [OF assms(1) le(1) assms(3)])
  moreover have "cursors (steps outf outi t (forward_init s)) ! i =
      (\<Sum>u<t. 1 - 2 * transition_at s i u)"
    by (rule steps_cursors_sum [OF assms(1) le(2) assms(3)])
  moreover have "buffer_cur_t (steps outf outi (Suc t) (forward_init s)) ! i =
      (\<Sum>u<Suc t. 1 - transition_at s i u)"
    by (rule steps_buffer_cur_sum [OF assms(1) le(1) assms(3)])
  moreover have "buffer_cur_t (steps outf outi t (forward_init s)) ! i =
      (\<Sum>u<t. 1 - transition_at s i u)"
    by (rule steps_buffer_cur_sum [OF assms(1) le(2) assms(3)])
  ultimately show ?thesis
    using depth_sum_count [OF assms(4)] depth by simp
qed

text \<open>C10, at the scenario of the specification, after its reduce at \<open>t = 2\<close>.\<close>

theorem cursors_track_depth_witness:
  "ready scenario7 \<and> (2::nat) < seq_length (spec scenario7) \<and> (0::nat) < batch_size (spec scenario7) \<and>
   binary_upto scenario7 0 3 \<and>
   cursors (steps nines fives 3 (forward_init scenario7)) ! 0 =
     int (shifts_upto scenario7 0 3) - int (reduces_upto scenario7 0 3) \<and>
   cursors (steps nines fives 3 (forward_init scenario7)) ! 0 =
     cursors (steps nines fives 2 (forward_init scenario7)) ! 0 + (1 - 2 * transition_at scenario7 0 2) \<and>
   buffer_cur_t (steps nines fives 3 (forward_init scenario7)) ! 0 =
     buffer_cur_t (steps nines fives 2 (forward_init scenario7)) ! 0 + (1 - transition_at scenario7 0 2) \<and>
   ref_example scenario7 0 3 = Some ([[5, 5]], 2) \<and>
   cursors (steps nines fives 3 (forward_init scenario7)) ! 0 = int (length [[5, 5 :: real]]) \<and>
   buffer_cur_t (steps nines fives 3 (forward_init scenario7)) ! 0 = int 2"
proof -
  have h1: "ready scenario7" by code_simp
  have h2: "(2::nat) < seq_length (spec scenario7)" by code_simp
  have h3: "(0::nat) < batch_size (spec scenario7)" by code_simp
  have h4: "binary_upto scenario7 0 (Suc 2)" by code_simp
  have h5: "binary_upto scenario7 0 3" by code_simp
  have h6: "ref_example scenario7 0 (Suc 2) = Some ([[5, 5]], 2)" by code_simp
  have h7: "ref_example scenario7 0 3 = Some ([[5, 5]], 2)" by code_simp
  show ?thesis
    using cursors_track_depth [OF h1 h2 h3 h4, of nines fives "[[5, 5]]" 2] h1 h2 h3 h5 h6 h7
    by (simp add: eval_nat_numeral)
qed

text \<open>
  C2, as stated, fails for the array \<^verbatim>\<open>cursors\<close>: in the scenario of the specification
  it holds 1 after the reduce at \<open>t = 2\<close>, where two shifts have happened, and it has
  gone down from 2.
\<close>

theorem cursor_counts_shifts_counterexample:
  "cursors (steps nines fives 3 (forward_init scenario7)) ! 0 \<noteq> int (shifts_upto scenario7 0 3) \<and>
   cursors (steps nines fives 3 (forward_init scenario7)) ! 0 <
     cursors (steps nines fives 2 (forward_init scenario7)) ! 0"
  by code_simp

text \<open>
  C2, amended. The per-example count of consumed tokens is the accumulator
  \<^verbatim>\<open>buffer_cur_t\<close>: after step \<open>t\<close> it equals the number of shifts among the
  transitions \<open>0, ..., t\<close> of the example, it never decreases, a shift adds one to it and
  a reduce leaves it unchanged.
\<close>

theorem buffer_cur_counts_shifts:
  assumes "ready s" "t < seq_length (spec s)" "i < batch_size (spec s)"
    and "binary_upto s i (Suc t)"
  shows "buffer_cur_t (steps outf outi (Suc t) (forward_init s)) ! i = int (shifts_upto s i (Suc t)) \<and>
         buffer_cur_t (steps outf outi t (forward_init s)) ! i
           \<le> buffer_cur_t (steps outf outi (Suc t) (forward_init s)) ! i \<and>
         buffer_cur_t (steps outf outi (Suc t) (forward_init s)) ! i =
           (if transition_at s i t = 0
            then buffer_cur_t (steps outf outi t (forward_init s)) ! i + 1
            else buffer_cur_t (steps outf outi t (forward_init s)) ! i)"
proof -
  have le: "Suc t \<le> seq_length (spec s)" "t \<le> seq_length (spec s)"
    using assms(2) by simp_all
  have bin: "transition_at s i t = 0 \<or> transition_at s i t = 1"
    using assms(4) by (simp add: binary_upto_Suc)
  have a: "buffer_cur_t (steps outf outi (Suc t) (forward_init s)) ! i =
      (\<Sum>u<Suc t. 1 - transition_at s i u)"
    by (rule steps_buffer_cur_sum [OF assms(1) le(1) assms(3)])
  have b: "buffer_cur_t (steps outf outi t (forward_init s)) ! i =
      (\<Sum>u<t. 1 - transition_at s i u)"
    by (rule steps_buffer_cur_sum [OF assms(1) le(2) assms(3)])
  have c: "(\<Sum>u<Suc t. 1 - transition_at s i u) = int (shifts_upto s i (Suc t))"
    by (rule shift_sum_count [OF assms(4)])
  show ?thesis
    using bin c unfolding a b by auto
qed

text \<open>
  C2 amended, at the scenario of the specification, after its reduce at \<open>t = 2\<close>.
\<close>

theorem buffer_cur_counts_shifts_witness:
  "ready scenario7 \<and> binary_upto scenario7 0 3 \<and>
   buffer_cur_t (steps nines fives 3 (forward_init scenario7)) ! 0 = int (shifts_upto scenario7 0 3) \<and>
   buffer_cur_t (steps nines fives 2 (forward_init scenario7)) ! 0
     \<le> buffer_cur_t (steps nines fives 3 (forward_init scenario7)) ! 0"
proof -
  have h1: "ready scenario7" by code_simp
  have h2: "(2::nat) < seq_length (spec scenario7)" by code_simp
  have h3: "(0::nat) < batch_size (spec scenario7)" by code_simp
  have h4: "binary_upto scenario7 0 (Suc 2)" by code_simp
  have h5: "binary_upto scenario7 0 3" by code_simp
  show ?thesis
    using buffer_cur_counts_shifts [OF h1 h2 h3 h4, of nines fives] h1 h5
    by (simp add: eval_nat_numeral)
qed

text \<open>
  C8, as stated, fails for the per-step containers: \<^verbatim>\<open>zero\<close> does not touch them, and
  fresh memory that holds 7 still holds 7 afterwards.
\<close>

theorem zero_scratch_counterexample:
  "merge_output (zero scenario7) ! 0 ! 0 \<noteq> 0 \<and> stack_1_t (zero scenario7) ! 0 ! 0 \<noteq> 0 \<and>
   stack_2_t (zero scenario7) ! 0 ! 0 \<noteq> 0 \<and> buffer_top_t (zero scenario7) ! 0 ! 0 \<noteq> 0 \<and>
   stack_2_ptrs (zero scenario7) ! 0 \<noteq> 0"
  by code_simp

text \<open>
  C8, amended. After \<^verbatim>\<open>zero\<close> every cell of \<^verbatim>\<open>stack\<close>, \<^verbatim>\<open>queue\<close> and \<^verbatim>\<open>cursors\<close>
  and of the accumulator \<^verbatim>\<open>buffer_cur_t\<close> is zero; the per-step containers
  \<^verbatim>\<open>buffer_top_t\<close>, \<^verbatim>\<open>stack_1_t\<close>, \<^verbatim>\<open>stack_2_ptrs\<close>, \<^verbatim>\<open>stack_2_t\<close> and
  \<^verbatim>\<open>merge_output\<close> keep their content.
\<close>

theorem zero_clears:
  assumes "k < seq_length (spec s) * batch_size (spec s)" "r < model_dim (spec s)"
    and "q < batch_size (spec s) * seq_length (spec s)" "i < batch_size (spec s)"
  shows "length (stack (zero s)) = seq_length (spec s) * batch_size (spec s) \<and>
         length (stack (zero s) ! k) = model_dim (spec s) \<and>
         stack (zero s) ! k ! r = 0 \<and>
         length (queue (zero s)) = batch_size (spec s) * seq_length (spec s) \<and>
         queue (zero s) ! q = 0 \<and>
         length (cursors (zero s)) = batch_size (spec s) \<and>
         cursors (zero s) ! i = 0 \<and>
         length (buffer_cur_t (zero s)) = batch_size (spec s) \<and>
         buffer_cur_t (zero s) ! i = 0 \<and>
         buffer_top_t (zero s) = buffer_top_t s \<and> stack_1_t (zero s) = stack_1_t s \<and>
         stack_2_ptrs (zero s) = stack_2_ptrs s \<and> stack_2_t (zero s) = stack_2_t s \<and>
         merge_output (zero s) = merge_output s"
  using assms
  by (simp add: zero_def stack_total_cols_def stack_size_def queue_total_size_def
      cursors_total_size_def)

text \<open>
  C8 amended, at the scenario of the specification.
\<close>

theorem zero_clears_witness:
  "stack (zero scenario7) ! 2 ! 1 = 0 \<and> queue (zero scenario7) ! 2 = 0 \<and>
   cursors (zero scenario7) ! 0 = 0 \<and> buffer_cur_t (zero scenario7) ! 0 = 0 \<and>
   merge_output (zero scenario7) = merge_output scenario7"
proof -
  have h1: "(2::nat) < seq_length (spec scenario7) * batch_size (spec scenario7)" by code_simp
  have h2: "(1::nat) < model_dim (spec scenario7)" by code_simp
  have h3: "(2::nat) < batch_size (spec scenario7) * seq_length (spec scenario7)" by code_simp
  have h4: "(0::nat) < batch_size (spec scenario7)" by code_simp
  show ?thesis
    using zero_clears [OF h1 h2 h3 h4] by simp
qed

text \<open>
  C3. The composition unit is to add the bias and to rectify after the two matrix
  multiplications. \<^verbatim>\<open>recurrence\<close> ends after the multiplications, on two \<^verbatim>\<open>TODO\<close>
  comments: with weights 1, bias one half, left child \<open>-1\<close> and right child 0 it returns
  \<open>-1\<close>, where the affine value is \<open>-1/2\<close> and its rectification is 0.
\<close>

theorem recurrence_omits_bias_and_relu:
  "merge_output (recurrence [[0]] [[- 1]] [[0]] tiny) = [[- 1]] \<and>
   compose_W_l (params tiny) ! 0 ! 0 * (- 1) + compose_W_r (params tiny) ! 0 ! 0 * 0
     + compose_b (params tiny) ! 0 = - 1 / 2 \<and>
   max 0 (compose_W_l (params tiny) ! 0 ! 0 * (- 1) + compose_W_r (params tiny) ! 0 ! 0 * 0
     + compose_b (params tiny) ! 0) = 0"
  by code_simp

text \<open>
  C9. At \<open>t = 0\<close>, whatever the transitions are, the gather of \<^verbatim>\<open>stack_1_t\<close> computes
  for example \<open>i\<close> the index \<open>i + (0 - 1) * batch_size\<close>, which is negative, and what it
  returns is the memory before the stack; the gather from the queue computes for
  example 0 the index \<open>cursors[0] - 1 = -1\<close>, and \<^verbatim>\<open>stack_2_ptrs[0]\<close> is made from
  the memory before the queue.
\<close>

theorem first_step_reads_outside:
  assumes "helpers_ok s" "i < batch_size (spec s)"
  shows "subtensor1_idx (batch_range (forward_init s)) ((int 0 - 1) * int (batch_size (spec s))) 1 0 None i
           = int i - int (batch_size (spec s)) \<and>
         int i - int (batch_size (spec s)) < 0 \<and>
         stack_1_t (step outf outi 0 (forward_init s)) ! i = outf (int i - int (batch_size (spec s))) \<and>
         subtensor1_idx (cursors (forward_init s)) (- 1) 1 (int (seq_length (spec s)))
           (Some (batch_range (forward_init s))) 0 = - 1 \<and>
         stack_2_ptrs (step outf outi 0 (forward_init s)) ! 0 = outi (- 1) * int (batch_size (spec s))"
proof -
  have br: "batch_range s = map int [0..<batch_size (spec s)]"
    using assms(1) by (simp add: helpers_ok_def)
  have pos: "0 < batch_size (spec s)" using assms(2) by simp
  have i1: "subtensor1_idx (batch_range (forward_init s)) ((int 0 - 1) * int (batch_size (spec s))) 1 0 None i
           = int i - int (batch_size (spec s))"
    using assms(2) by (simp add: subtensor1_idx_def br)
  have i2: "subtensor1_idx (cursors (forward_init s)) (- 1) 1 (int (seq_length (spec s)))
           (Some (batch_range (forward_init s))) 0 = - 1"
    using pos by (simp add: subtensor1_idx_def br)
  have neg: "int i - int (batch_size (spec s)) < 0" using assms(2) by simp
  have s1: "stack_1_t (step outf outi 0 (forward_init s)) ! i = outf (int i - int (batch_size (spec s)))"
    using assms(2) i1 neg by (simp add: step_stack_1_t nth_subtensor1 fetch_negative)
  have s2: "stack_2_ptrs (step outf outi 0 (forward_init s)) ! 0 = outi (- 1) * int (batch_size (spec s))"
    using pos i2 by (simp add: step_stack_2_ptrs nth_addi_vv nth_subtensor1 fetch_negative br)
  show ?thesis using i1 i2 neg s1 s2 by simp
qed

text \<open>
  C9, at the scenario of the specification.
\<close>

theorem first_step_reads_outside_witness:
  "helpers_ok scenario7 \<and>
   stack_1_t (step (nines 0) (fives 0) 0 (forward_init scenario7)) ! 0 = nines 0 (- 1) \<and>
   stack_2_ptrs (step (nines 0) (fives 0) 0 (forward_init scenario7)) ! 0 = fives 0 (- 1) * 1"
proof -
  have h1: "helpers_ok scenario7" by code_simp
  have h2: "(0::nat) < batch_size (spec scenario7)" by code_simp
  have e: "int (batch_size (spec scenario7)) = 1" by code_simp
  show ?thesis
    using first_step_reads_outside [OF h1 h2, of "nines 0" "fives 0"] h1 by (simp add: e)
qed

text \<open>
  C6. Step \<open>t\<close> writes only row \<open>t\<close> of the stack, the columns
  \<open>t * batch_size ..< t * batch_size + batch_size\<close>: every other column \<open>k\<close> holds after
  step \<open>t\<close> what it held before, and a column \<open>j\<close> of row \<open>t\<close> holds after any later
  number \<open>n\<close> of steps what step \<open>t\<close> wrote. This holds from any starting state.
\<close>

theorem stack_rows_written_once:
  assumes "k < length (stack s)"
    and "k < t * batch_size (spec s) \<or> t * batch_size (spec s) + batch_size (spec s) \<le> k"
    and "j < length (stack s)"
    and "t * batch_size (spec s) \<le> j" "j < t * batch_size (spec s) + batch_size (spec s)"
    and "t < n"
  shows "stack (steps outf outi (Suc t) s) ! k = stack (steps outf outi t s) ! k \<and>
         length (stack (steps outf outi (Suc t) s)) = length (stack (steps outf outi t s)) \<and>
         stack (steps outf outi n s) ! j = stack (steps outf outi (Suc t) s) ! j"
proof -
  have "j < Suc t * batch_size (spec s)" using assms(5) by simp
  moreover have "Suc t \<le> n" using assms(6) by simp
  ultimately have "stack (steps outf outi n s) ! j = stack (steps outf outi (Suc t) s) ! j"
    using assms(3) by (rule steps_stack_kept [rotated])
  moreover have "stack (steps outf outi (Suc t) s) ! k = stack (steps outf outi t s) ! k"
    using assms(1,2) by (simp add: step_stack_outside)
  ultimately show ?thesis by simp
qed

text \<open>
  C6, at the scenario of the specification: step 1 leaves column 0 alone and writes
  column 1, which step 2 leaves alone.
\<close>

theorem stack_rows_written_once_witness:
  "stack (steps nines fives 2 (forward_init scenario7)) ! 0 =
     stack (steps nines fives 1 (forward_init scenario7)) ! 0 \<and>
   stack (steps nines fives 3 (forward_init scenario7)) ! 1 =
     stack (steps nines fives 2 (forward_init scenario7)) ! 1 \<and>
   stack (steps nines fives 2 (forward_init scenario7)) ! 1 = [2, 2] \<and>
   stack (steps nines fives 1 (forward_init scenario7)) ! 1 = [0, 0]"
proof -
  let ?s = "forward_init scenario7"
  have e: "stack (steps nines fives 2 (forward_init scenario7)) ! 1 = [2, 2]"
    "stack (steps nines fives 1 (forward_init scenario7)) ! 1 = [0, 0]" by code_simp+
  have g1: "(0::nat) < length (stack ?s)" by code_simp
  have g2: "(0::nat) < 1 * batch_size (spec ?s) \<or> 1 * batch_size (spec ?s) + batch_size (spec ?s) \<le> 0"
    by code_simp
  have g3: "(1::nat) < length (stack ?s)" by code_simp
  have g4: "1 * batch_size (spec ?s) \<le> (1::nat)" by code_simp
  have g5: "(1::nat) < 1 * batch_size (spec ?s) + batch_size (spec ?s)" by code_simp
  have g6: "(1::nat) < 3" by simp
  show ?thesis
    using stack_rows_written_once [OF g1 g2 g3 g4 g5 g6, of nines fives] e
    by (simp add: eval_nat_numeral)
qed

text \<open>
  C5, as stated, fails: in the scenario of the specification the cursor of the example
  is 1 before step 1, and after step 1 position 1 of the queue does not hold the
  timestep 1; position 2 does.
\<close>

theorem queue_position_counterexample:
  "cursors (steps nines fives 1 (forward_init scenario7)) ! 0 = 1 \<and>
   queue (steps nines fives 2 (forward_init scenario7)) ! 1 \<noteq> 1 \<and>
   queue (steps nines fives 2 (forward_init scenario7)) ! 2 = 1"
  by code_simp

text \<open>
  C5, amended. Step \<open>t\<close> first updates \<^verbatim>\<open>cursors\<close> (by \<open>1 - 2 * transition\<close>) and then
  writes the timestep \<open>t\<close> into the queue at offset
  \<open>cursors[i] + i * seq_length\<close>, with the updated cursor, for every example whose
  offset lies inside the queue.
\<close>

theorem queue_written_at_new_cursor:
  assumes "ready s" "t < seq_length (spec s)" "i < batch_size (spec s)"
    and "0 \<le> cursors (steps outf outi (Suc t) (forward_init s)) ! i + int (i * seq_length (spec s))"
    and "cursors (steps outf outi (Suc t) (forward_init s)) ! i + int (i * seq_length (spec s))
           < int (batch_size (spec s) * seq_length (spec s))"
  shows "cursors (steps outf outi (Suc t) (forward_init s)) ! i =
           cursors (steps outf outi t (forward_init s)) ! i + 1 - 2 * transition_at s i t \<and>
         queue (steps outf outi (Suc t) (forward_init s))
           ! nat (cursors (steps outf outi (Suc t) (forward_init s)) ! i + int (i * seq_length (spec s)))
           = int t"
proof -
  let ?st = "steps outf outi t (forward_init s)"
  have c: "cursors (step (outf t) (outi t) t ?st) ! i = cursors ?st ! i + 1 - 2 * transition_at s i t"
    using step_cursors_nth [of ?st t i "outf t" "outi t"] assms(1-3) by simp
  have h: "helpers_ok ?st" using assms(1) by (simp add: ready_def helpers_ok_def)
  have lt: "nat (cursors (step (outf t) (outi t) t ?st) ! i + int (i * seq_length (spec ?st)))
      < length (queue ?st)"
    using assms(4,5) by (simp add: nat_less_iff)
  have "queue (step (outf t) (outi t) t ?st)
          ! nat (cursors (step (outf t) (outi t) t ?st) ! i + int (i * seq_length (spec ?st))) = int t"
    using assms(3,4) lt by (intro step_queue_nth_written [OF _ h]) simp_all
  with c show ?thesis by simp
qed

text \<open>
  C5 amended, at step 1 of the scenario of the specification.
\<close>

theorem queue_written_at_new_cursor_witness:
  "ready scenario7 \<and>
   cursors (steps nines fives 1 (forward_init scenario7)) ! 0 = 1 \<and>
   cursors (steps nines fives 2 (forward_init scenario7)) ! 0 = 2 \<and>
   queue (steps nines fives 2 (forward_init scenario7)) ! 2 = 1"
proof -
  have h1: "ready scenario7" by code_simp
  have h2: "(1::nat) < seq_length (spec scenario7)" by code_simp
  have h3: "(0::nat) < batch_size (spec scenario7)" by code_simp
  have h4: "0 \<le> cursors (steps nines fives (Suc 1) (forward_init scenario7)) ! 0
      + int (0 * seq_length (spec scenario7))" by code_simp
  have h5: "cursors (steps nines fives (Suc 1) (forward_init scenario7)) ! 0
      + int (0 * seq_length (spec scenario7))
      < int (batch_size (spec scenario7) * seq_length (spec scenario7))" by code_simp
  have e: "cursors (steps nines fives 1 (forward_init scenario7)) ! 0 = 1"
    "cursors (steps nines fives 2 (forward_init scenario7)) ! 0 = 2" by code_simp+
  have n: "Suc 1 = 2" by simp
  show ?thesis
    using queue_written_at_new_cursor [OF h1 h2 h3 h4 h5] h1 e unfolding n
    by simp
qed

text \<open>
  C7, as stated, fails: nothing rejects a reduce at \<open>t = 0\<close>. With two examples of
  which the second starts with a reduce, \<^verbatim>\<open>forward\<close> runs to its end, and the stack
  row of that example is the composition of a zeroed stack row with what lies in the
  memory before the stack.
\<close>

theorem reduce_first_counterexample:
  "transition_at reduce_first 1 0 = 1 \<and>
   stack_1_t (steps nine1 fives 1 (forward_init reduce_first)) ! 1 = nine1 0 (- 1) \<and>
   stack (forward nine1 fives reduce_first) ! 1 =
     compose1 (params reduce_first) 1 [0] (nine1 0 (- 1)) \<and>
   stack (forward nine1 fives reduce_first) ! 1 = [9]"
  by code_simp

text \<open>
  C7, amended. \<^verbatim>\<open>forward\<close> validates nothing. For an example \<open>i\<close> whose transition at
  \<open>t = 0\<close> is a reduce it runs to its end, and the stack row of that example at
  timestep 0 is the composition of the two rows gathered at \<open>t = 0\<close>, of which the
  right child is the content of the memory at column \<open>i - batch_size\<close>, before the
  stack. That the first transition is a shift is left to the caller.
\<close>

theorem reduce_first_not_rejected:
  assumes "ready s" "0 < seq_length (spec s)" "i < batch_size (spec s)"
    and "transition_at s i 0 = 1"
  shows "stack_1_t (steps outf outi (Suc 0) (forward_init s)) ! i
           = outf 0 (int i - int (batch_size (spec s))) \<and>
         stack (forward outf outi s) ! i =
           compose1 (params s) (model_dim (spec s))
             (stack_2_t (steps outf outi (Suc 0) (forward_init s)) ! i)
             (outf 0 (int i - int (batch_size (spec s))))"
proof -
  let ?s0 = "forward_init s"
  let ?s1 = "step (outf 0) (outi 0) 0 ?s0"
  have h: "helpers_ok ?s0" using assms(1) by (simp add: ready_def helpers_ok_def)
  have r: "ready ?s0" using assms(1) by simp
  have a: "stack_1_t ?s1 ! i = outf 0 (int i - int (batch_size (spec s)))"
    using step0_stack_1_t [OF h, of i "outf 0" "outi 0"] assms(3) by simp
  have "1 * batch_size (spec s) \<le> seq_length (spec s) * batch_size (spec s)"
    using assms(2) by (intro mult_le_mono1) simp
  then have "i < seq_length (spec s) * batch_size (spec s)" using assms(3) by linarith
  then have len: "i < length (stack ?s0)" by simp
  have "stack ?s1 ! (0 * batch_size (spec ?s0) + i) =
      (if transition_at ?s0 i 0 = 1 then merge_output ?s1 ! i else buffer_top_t ?s1 ! i)"
    using assms(2,3) len by (intro step_stack_row [OF r]) simp_all
  then have b: "stack ?s1 ! i = merge_output ?s1 ! i" using assms(4) by simp
  have c: "merge_output ?s1 ! i =
      compose1 (params s) (model_dim (spec s)) (stack_2_t ?s1 ! i) (stack_1_t ?s1 ! i)"
    using step_merge_output_nth [of i ?s0 "outf 0" "outi 0" 0] assms(3) by simp
  have "stack (steps outf outi (seq_length (spec s)) ?s0) ! i = stack (steps outf outi (Suc 0) ?s0) ! i"
    using assms(2,3) len by (intro steps_stack_kept) simp_all
  then have d: "stack (forward outf outi s) ! i = stack ?s1 ! i"
    by (simp add: forward_def)
  show ?thesis using a b c d by simp
qed

text \<open>
  C7 amended, at the two examples above.
\<close>

theorem reduce_first_not_rejected_witness:
  "ready reduce_first \<and> transition_at reduce_first 1 0 = 1 \<and>
   stack (forward nine1 fives reduce_first) ! 1 = 
     compose1 (params reduce_first) (model_dim (spec reduce_first))
             (stack_2_t (steps nine1 fives (Suc 0) (forward_init reduce_first)) ! 1)
             (nine1 0 (int 1 - int (batch_size (spec reduce_first))))"
proof -
  have h1: "ready reduce_first" by code_simp
  have h2: "0 < seq_length (spec reduce_first)" by code_simp
  have h3: "1 < batch_size (spec reduce_first)" by code_simp
  have h4: "transition_at reduce_first 1 0 = 1" by code_simp
  show ?thesis
    using reduce_first_not_rejected [OF h1 h2 h3 h4, of nine1 fives] h1 h4 by simp
qed



text \<open>
  C1. Let the transitions be well formed: the reference simulation of every example
  runs through them. At a timestep \<open>t\<close> where example \<open>i\<close> reduces, the reference stack
  of the example before the step is \<open>r # l # rest\<close>; \<^verbatim>\<open>cursors[i]\<close> is its depth;
  \<^verbatim>\<open>stack_2_ptrs[i]\<close> is the queue entry at \<open>cursors[i] - 1\<close> scaled by \<open>batch_size\<close> plus
  \<open>i\<close>; the row gathered there is the second entry from the top \<open>l\<close>, the row gathered
  as \<^verbatim>\<open>stack_1_t\<close> is the top \<open>r\<close>; and the stack row written at \<open>t\<close> is their composition,
  which the reference pushes.
\<close>

theorem reduce_pops_reference_children:
  assumes "ready s" "well_formed s" "i < batch_size (spec s)" "t < seq_length (spec s)"
    and "transition_at s i t = 1"
  shows "\<exists>r l rest cur.
           ref_example s i t = Some (r # l # rest, cur) \<and>
           cursors (steps outf outi t (forward_init s)) ! i = int (length rest) + 2 \<and>
           stack_2_ptrs (steps outf outi (Suc t) (forward_init s)) ! i =
             queue (steps outf outi t (forward_init s)) ! (i * seq_length (spec s) + Suc (length rest))
               * int (batch_size (spec s)) + int i \<and>
           stack_2_t (steps outf outi (Suc t) (forward_init s)) ! i = l \<and>
           stack_1_t (steps outf outi (Suc t) (forward_init s)) ! i = r \<and>
           stack (steps outf outi (Suc t) (forward_init s)) ! (t * batch_size (spec s) + i) =
             compose1 (params s) (model_dim (spec s)) l r \<and>
           ref_example s i (Suc t) =
             Some (compose1 (params s) (model_dim (spec s)) l r # rest, cur)"
proof -
  let ?B = "batch_size (spec s)" and ?T = "seq_length (spec s)" and ?D = "model_dim (spec s)"
  let ?st = "steps outf outi t (forward_init s)"
  let ?st' = "step (outf t) (outi t) t ?st"
  let ?cmp = "compose1 (params s) ?D"
  have t: "t \<le> ?T" "Suc t \<le> ?T" using assms(4) by simp_all
  from assms(2,3) t(2) obtain stk' cur' where ex': "ref_example s i (Suc t) = Some (stk', cur')"
    by (rule well_formed_example)
  from ex' [unfolded ref_example_def] obtain st0
    where r0: "ref_run ?cmp (example_tokens s i) (transition_at s i) t = Some st0"
      and rs: "ref_step ?cmp (example_tokens s i) (transition_at s i t) st0 = Some (stk', cur')"
    by (rule ref_run_Suc_Some)
  obtain stk0 cur0 where st0: "st0 = (stk0, cur0)" by (cases st0)
  have ex0: "ref_example s i t = Some (stk0, cur0)"
    using r0 st0 by (simp add: ref_example_def)
  from rs [unfolded st0] assms(5) obtain r l rest
    where stk0: "stk0 = r # l # rest" and stk': "stk' = ?cmp l r # rest" and cur': "cur' = cur0"
    by (cases rule: ref_step_cases) simp_all
  have m: "stack_matches ?st i t stk0"
    using assms(1-3) assms(4) ex0 by (rule stack_matches_steps)
  have sh0: "length stk0 \<le> t"
    using ref_run_shape [OF r0 [unfolded st0]] by simp
  have c0: "cursors ?st ! i = int (length stk0)"
    using cursors_ref(1) [OF assms(1) t(1) assms(3) ex0] by simp
  have rdy_st: "ready ?st" using assms(1) by simp
  have lens: "length (stack ?st) = ?T * ?B" "length (queue ?st) = ?B * ?T" by simp_all
  have ch: "stack_1_t ?st' ! i = r" "stack_2_t ?st' ! i = l"
    "stack_2_ptrs ?st' ! i = queue ?st ! (i * ?T + (length stk0 - 1)) * int ?B + int i"
    using step_children [OF assms(1,4,3) c0 stk0 sh0 lens _ _ m, of "outf t" "outi t"]
    by simp_all
  have mo: "merge_output ?st' ! i = ?cmp l r"
    using step_merge_output_nth [of i ?st "outf t" "outi t" t] assms(3) ch by simp
  have top_in: "t * ?B + i < length (stack ?st)"
    unfolding lens using assms(4) _ assms(3) by (rule row_index_bound) simp
  have row: "stack ?st' ! (t * ?B + i) = ?cmp l r"
    using step_stack_row [OF rdy_st, of t i "outf t" "outi t"] assms(3,4,5) top_in mo by simp
  show ?thesis
    using ex0 ex' c0 ch row unfolding stk0 stk' cur'
    by (intro exI [of _ r] exI [of _ l] exI [of _ rest] exI [of _ cur0]) simp
qed

text \<open>
  C1, at the reduce of the scenario of the specification.
\<close>

theorem reduce_pops_reference_children_witness:
  "ready scenario7 \<and> well_formed scenario7 \<and> transition_at scenario7 0 2 = 1 \<and>
   ref_example scenario7 0 2 = Some ([[2, 2], [1, 1]], 2) \<and>
   stack_2_t (steps nines fives 3 (forward_init scenario7)) ! 0 = [1, 1] \<and>
   stack_1_t (steps nines fives 3 (forward_init scenario7)) ! 0 = [2, 2] \<and>
   stack (steps nines fives 3 (forward_init scenario7)) ! 2 =
     compose1 (params scenario7) (model_dim (spec scenario7)) [1, 1] [2, 2]"
proof -
  have h1: "ready scenario7" by code_simp
  have h2: "well_formed scenario7" by code_simp
  have h3: "0 < batch_size (spec scenario7)" by code_simp
  have h4: "2 < seq_length (spec scenario7)" by code_simp
  have h5: "transition_at scenario7 0 2 = 1" by code_simp
  have e: "ref_example scenario7 0 2 = Some ([[2, 2], [1, 1]], 2)" by code_simp
  have b: "2 * batch_size (spec scenario7) + 0 = 2" by code_simp
  have n: "Suc 2 = 3" by simp
  show ?thesis
    using reduce_pops_reference_children [OF h1 h2 h3 h4 h5, of nines fives] h1 h2 h5
    unfolding e b n by auto
qed

end
